theory Spec2Isabelle
  imports Complex_Main
begin

section \<open>Numbers of the host language\<close>

text \<open>
  Coordinates, clock readings of the render loop and the arithmetic on them are
  JavaScript numbers (doubles); they are modelled as real numbers with exact
  arithmetic, so the rounding of a double operation, the double nearest to a literal
  such as 0.03 and the accuracy of \<open>Math.sin\<close> are idealised. The particle buffers are
  \<open>Float32Array\<close>s: every store into them rounds the value to the nearest float32,
  and that rounding is modelled (\<open>fround\<close> below). \<open>Date.now()\<close> returns whole
  milliseconds and is modelled as an integer.
\<close>

text \<open>
  Modelled from the spec: \<open>THREE.MathUtils.lerp\<close> is a function of the three.js
  library, which is not part of the repository's sources. The spec's glossary gives
  the blend as \<open>x \<leftarrow> x + \<alpha>(target - x)\<close>.
\<close>

definition lerp :: "real \<Rightarrow> real \<Rightarrow> real \<Rightarrow> real" where
  "lerp x y t = x + t * (y - x)"

text \<open>
  The store into a \<open>Float32Array\<close> (the value of \<open>Math.fround\<close>): round to the
  nearest float32, ties to the even mantissa. A float32 has a 24-bit mantissa; the
  spacing of the floats around a magnitude \<open>a\<close> is \<open>2^(e - 23)\<close> for the exponent
  \<open>e\<close> of \<open>a\<close>, which is not taken below -126 (subnormal numbers share the spacing
  \<open>2^-149\<close>). Magnitudes beyond the float32 range, which would store \<open>Infinity\<close>,
  do not occur between two stored values and are rounded on the same grid here.
\<close>

definition round_ties_even :: "real \<Rightarrow> int" where
  "round_ties_even r =
     (let f = \<lfloor>r\<rfloor> in
      if r - of_int f < 1/2 then f
      else if 1/2 < r - of_int f then f + 1
      else if even f then f else f + 1)"

definition f32_exponent :: "real \<Rightarrow> int" where
  "f32_exponent a = max (- 126) \<lfloor>log 2 a\<rfloor>"

definition f32_ulp :: "real \<Rightarrow> real" where
  "f32_ulp a = 2 powr of_int (f32_exponent a - 23)"

definition round_mag :: "real \<Rightarrow> real" where
  "round_mag a = of_int (round_ties_even (a / f32_ulp a)) * f32_ulp a"

definition fround :: "real \<Rightarrow> real" where
  "fround x = sgn x * round_mag \<bar>x\<bar>"

text \<open>The values a \<open>Float32Array\<close> can hold.\<close>

definition f32 :: "real \<Rightarrow> bool" where
  "f32 x \<longleftrightarrow> fround x = x"

text \<open>
  The slideshow index is a JavaScript number on which \<open>%\<close> is used: a remainder by
  zero yields \<open>NaN\<close>, which is kept as a value of its own so that a remainder by zero
  shows in the state.
\<close>

datatype jsnum = Num int | NaN

fun js_add :: "jsnum \<Rightarrow> jsnum \<Rightarrow> jsnum" where
  "js_add (Num a) (Num b) = Num (a + b)"
| "js_add _ _ = NaN"

fun js_sub :: "jsnum \<Rightarrow> jsnum \<Rightarrow> jsnum" where
  "js_sub (Num a) (Num b) = Num (a - b)"
| "js_sub _ _ = NaN"

text \<open>JavaScript's \<open>%\<close>: the result has the sign of the dividend.\<close>

fun js_rem :: "jsnum \<Rightarrow> jsnum \<Rightarrow> jsnum" where
  "js_rem (Num a) (Num b) = (if b = 0 then NaN else Num (sgn a * (\<bar>a\<bar> mod \<bar>b\<bar>)))"
| "js_rem _ _ = NaN"

text \<open>Reading an array element: \<open>undefined\<close> (here \<open>None\<close>) outside the array.\<close>

fun js_index :: "'a list \<Rightarrow> jsnum \<Rightarrow> 'a option" where
  "js_index xs (Num k) = (if 0 \<le> k \<and> nat k < length xs then Some (xs ! nat k) else None)"
| "js_index xs NaN = None"

section \<open>HandController: gesture classification of one detector frame\<close>

record landmark =
  lm_x :: real
  lm_y :: real
  lm_z :: real

datatype tree_state = CHAOS | FORMED

datatype direction = left | right

datatype js_error = TypeError

text \<open>The three refs of the component: \<open>lastHandX\<close>, \<open>lastSwipeTime\<close>, \<open>lastVictoryTime\<close>.\<close>

record hc_refs =
  lastHandX :: "real option"
  lastSwipeTime :: int
  lastVictoryTime :: int

definition initial_refs :: hc_refs where
  "initial_refs = \<lparr>lastHandX = None, lastSwipeTime = 0, lastVictoryTime = 0\<rparr>"

text \<open>
  What one frame with a hand calls on its props: \<open>setTreeState\<close> and \<open>setRotation\<close>
  and \<open>setCameraZoom\<close> are called on every such frame, \<open>setFocusMode\<close> and
  \<open>onSwipe\<close> only when their gates open (\<open>None\<close>: not called).
\<close>

record hc_calls =
  setTreeState_arg :: tree_state
  setFocusMode_arg :: "bool option"
  onSwipe_arg :: "direction option"
  setRotation_arg :: real
  setCameraZoom_arg :: real

definition isExtended :: "landmark list \<Rightarrow> nat \<Rightarrow> nat \<Rightarrow> bool" where
  "isExtended landmarks tipIdx pipIdx \<longleftrightarrow> lm_y (landmarks ! tipIdx) < lm_y (landmarks ! pipIdx)"

definition fingersExtendedCount :: "landmark list \<Rightarrow> nat" where
  "fingersExtendedCount landmarks =
     length (filter (\<lambda>b. b)
       [isExtended landmarks 8 6, isExtended landmarks 12 10,
        isExtended landmarks 16 14, isExtended landmarks 20 18])"

definition isFist :: "landmark list \<Rightarrow> bool" where
  "isFist landmarks \<longleftrightarrow> fingersExtendedCount landmarks < 2"

definition isVictory :: "landmark list \<Rightarrow> bool" where
  "isVictory landmarks \<longleftrightarrow>
     isExtended landmarks 8 6 \<and> isExtended landmarks 12 10 \<and>
     \<not> isExtended landmarks 16 14 \<and> \<not> isExtended landmarks 20 18"

definition SWIPE_THRESHOLD :: real where
  "SWIPE_THRESHOLD = 0.03"

definition SWIPE_COOLDOWN :: int where
  "SWIPE_COOLDOWN = 500"

text \<open>The selection gate of a victory frame, read at the first \<open>Date.now()\<close>.\<close>

definition selectFires :: "hc_refs \<Rightarrow> landmark list \<Rightarrow> int \<Rightarrow> bool" where
  "selectFires refs landmarks now \<longleftrightarrow> isVictory landmarks \<and> now - lastVictoryTime refs > 800"

text \<open>
  The swipe block, read at the second \<open>Date.now()\<close>; \<open>has_onSwipe\<close> says whether the
  optional prop \<open>onSwipe\<close> was passed.
\<close>

definition swipeOf :: "bool \<Rightarrow> hc_refs \<Rightarrow> landmark list \<Rightarrow> int \<Rightarrow> direction option" where
  "swipeOf has_onSwipe refs landmarks now =
     (case lastHandX refs of
        None \<Rightarrow> None
      | Some lastX \<Rightarrow>
          if isVictory landmarks \<and> has_onSwipe then
            (let dx = lm_x (landmarks ! 9) - lastX in
             if \<bar>dx\<bar> > SWIPE_THRESHOLD \<and> now - lastSwipeTime refs > SWIPE_COOLDOWN
             then (if dx > 0 then Some right else Some left)
             else None)
          else None)"

text \<open>
  The body of the frame callback from the point where the detector's result is
  inspected. \<open>result_landmarks\<close> is the list of detected hands (empty: no hand, nothing
  is called and no ref changes). The hand's keypoints 9, 8, 6, 12, 10, 16, 14, 20, 18
  are all read before the first prop is called, so a hand with fewer than 21 keypoints
  raises \<open>TypeError\<close> (a property of \<open>undefined\<close> is read) before any effect.
  A callback that returns early because the detector or the video is not ready calls
  nothing and changes no ref, as a frame without a hand.
\<close>

definition handFrame ::
  "bool \<Rightarrow> hc_refs \<Rightarrow> landmark list list \<Rightarrow> int \<Rightarrow> int \<Rightarrow> js_error + (hc_refs \<times> hc_calls option)"
where
  "handFrame has_onSwipe refs result_landmarks now1 now2 =
     (case result_landmarks of
        [] \<Rightarrow> Inr (refs, None)
      | landmarks # _ \<Rightarrow>
          if length landmarks \<le> 20 then Inl TypeError
          else
            (let currentHandX = lm_x (landmarks ! 9);
                 sel = selectFires refs landmarks now1;
                 sw = swipeOf has_onSwipe refs landmarks now2;
                 handX = (lm_x (landmarks ! 9) - 0.5) * 2;
                 handY = (lm_y (landmarks ! 9) - 0.5) * 2
             in Inr
               (refs\<lparr>lastVictoryTime := (if sel then now1 else lastVictoryTime refs),
                     lastSwipeTime := (if sw = None then lastSwipeTime refs else now2),
                     lastHandX := Some currentHandX\<rparr>,
                Some \<lparr>setTreeState_arg = (if isFist landmarks then FORMED else CHAOS),
                      setFocusMode_arg = (if sel then Some True else None),
                      onSwipe_arg = sw,
                      setRotation_arg = handX * 0.05,
                      setCameraZoom_arg = handY\<rparr>)))"

text \<open>One detector frame: the hands found and the two clock readings of the callback.\<close>

record frame =
  hands :: "landmark list list"
  now_select :: int
  now_swipe :: int

text \<open>A run of frames; an exception ends it.\<close>

fun run_frames ::
  "bool \<Rightarrow> hc_refs \<Rightarrow> frame list \<Rightarrow> js_error + (hc_refs \<times> hc_calls option list)"
where
  "run_frames has_onSwipe refs [] = Inr (refs, [])"
| "run_frames has_onSwipe refs (f # fs) =
     (case handFrame has_onSwipe refs (hands f) (now_select f) (now_swipe f) of
        Inl e \<Rightarrow> Inl e
      | Inr (refs1, c) \<Rightarrow>
          (case run_frames has_onSwipe refs1 fs of
             Inl e \<Rightarrow> Inl e
           | Inr (refs2, cs) \<Rightarrow> Inr (refs2, c # cs)))"

text \<open>Whether the calls of a frame contain \<open>setFocusMode(true)\<close>.\<close>

definition focusRequested :: "hc_calls option \<Rightarrow> bool" where
  "focusRequested c \<longleftrightarrow> (case c of None \<Rightarrow> False | Some cs \<Rightarrow> setFocusMode_arg cs = Some True)"

section \<open>Scene: the interaction state and its handlers\<close>

record scene_state =
  treeState :: tree_state
  focusMode :: bool
  rotation :: real
  slideshowIndex :: jsnum
  cameraZ :: real

text \<open>
  The \<open>useState\<close> defaults; the camera starts at \<open>CONFIG.cameraPosition\<close> and its
  ref is taken to be mounted.
\<close>

definition initial_scene :: scene_state where
  "initial_scene =
     \<lparr>treeState = FORMED, focusMode = False, rotation = 0, slideshowIndex = Num 0, cameraZ = 18\<rparr>"

text \<open>
  The effect with dependency \<open>[treeState]\<close>: after a render in which \<open>treeState\<close>
  differs from the previously rendered one, it calls \<open>setFocusMode(false)\<close> when the
  new value is \<open>FORMED\<close>. \<open>rendered\<close> is the state of the last render, \<open>next\<close> the
  state after the pending updates.
\<close>

definition commit :: "scene_state \<Rightarrow> scene_state \<Rightarrow> scene_state" where
  "commit rendered next =
     (if treeState next \<noteq> treeState rendered
      then (if treeState next = FORMED then next\<lparr>focusMode := False\<rparr> else next)
      else next)"

definition setTreeState :: "tree_state \<Rightarrow> scene_state \<Rightarrow> scene_state" where
  "setTreeState v s = commit s (s\<lparr>treeState := v\<rparr>)"

definition handleZoom :: "real \<Rightarrow> scene_state \<Rightarrow> scene_state" where
  "handleZoom delta s =
     (let targetZ = 18 + delta * 10 in s\<lparr>cameraZ := lerp (cameraZ s) targetZ 0.05\<rparr>)"

text \<open>
  \<open>handleSwipe\<close> is a callback of the render that produced \<open>s\<close>: it reads that render's
  \<open>focusMode\<close> and \<open>photos.length\<close>, and updates the index through a functional update.
\<close>

definition handleSwipe :: "string list \<Rightarrow> direction \<Rightarrow> scene_state \<Rightarrow> scene_state" where
  "handleSwipe photos dir s =
     (if \<not> focusMode s \<or> length photos = 0 then s
      else
        (let prev = slideshowIndex s; len = Num (int (length photos)) in
         s\<lparr>slideshowIndex :=
             (if dir = right then js_rem (js_add prev (Num 1)) len
              else js_rem (js_add (js_sub prev (Num 1)) len) len)\<rparr>))"

text \<open>
  The 4-second interval exists only while \<open>focusMode\<close> holds and the photo list is not
  empty (the effect installs it under that test and clears it when either changes).
\<close>

definition slideshowTimer :: "string list \<Rightarrow> scene_state \<Rightarrow> scene_state" where
  "slideshowTimer photos s =
     (if focusMode s \<and> length photos > 0
      then s\<lparr>slideshowIndex :=
               js_rem (js_add (slideshowIndex s) (Num 1)) (Num (int (length photos)))\<rparr>
      else s)"

definition onClose :: "scene_state \<Rightarrow> scene_state" where
  "onClose s = s\<lparr>focusMode := False\<rparr>"

text \<open>
  The calls of one hand frame, applied to the scene and rendered on their own. The
  setters write different fields; \<open>onSwipe\<close> is the \<open>handleSwipe\<close> of the last render,
  so it reads the \<open>focusMode\<close> of \<open>s\<close>, not the one requested in the same frame. The
  effect runs at the commit that follows.
\<close>

definition sceneFrame :: "string list \<Rightarrow> scene_state \<Rightarrow> hc_calls \<Rightarrow> scene_state" where
  "sceneFrame photos s c =
     (let s1 = (case onSwipe_arg c of None \<Rightarrow> s | Some d \<Rightarrow> handleSwipe photos d s);
          s2 = s1\<lparr>treeState := setTreeState_arg c,
                  focusMode := (case setFocusMode_arg c of None \<Rightarrow> focusMode s | Some b \<Rightarrow> b),
                  rotation := setRotation_arg c\<rparr>;
          s3 = handleZoom (setCameraZoom_arg c) s2
      in commit s s3)"

text \<open>
  The setters are React state updates: a call is queued and takes effect at the next
  render, and the calls of all hand frames handled before that render are applied
  together. \<open>applyCalls\<close> adds the calls of one frame to the pending state. The
  \<open>onSwipe\<close> it runs is the \<open>handleSwipe\<close> of the last render, so it reads the rendered
  \<open>focusMode\<close>, and its index update is functional, so it works on the pending index.
\<close>

definition applyCalls ::
  "string list \<Rightarrow> scene_state \<Rightarrow> scene_state \<Rightarrow> hc_calls \<Rightarrow> scene_state"
where
  "applyCalls photos rendered pending c =
     (let s1 = (case onSwipe_arg c of
                  None \<Rightarrow> pending
                | Some d \<Rightarrow>
                    pending\<lparr>slideshowIndex :=
                      slideshowIndex
                        (handleSwipe photos d
                           (rendered\<lparr>slideshowIndex := slideshowIndex pending\<rparr>))\<rparr>);
          s2 = s1\<lparr>treeState := setTreeState_arg c,
                  focusMode := (case setFocusMode_arg c of None \<Rightarrow> focusMode s1 | Some b \<Rightarrow> b),
                  rotation := setRotation_arg c\<rparr>
      in handleZoom (setCameraZoom_arg c) s2)"

text \<open>
  One render after the calls of the frames \<open>cs\<close>: the effect compares the new
  \<open>treeState\<close> with the one of the last render, whatever values were queued in between.
\<close>

definition sceneBatch :: "string list \<Rightarrow> scene_state \<Rightarrow> hc_calls list \<Rightarrow> scene_state" where
  "sceneBatch photos s cs = commit s (foldl (applyCalls photos s) s cs)"

definition calls_made :: "hc_calls option list \<Rightarrow> hc_calls list" where
  "calls_made cs = [c. Some c \<leftarrow> cs]"

datatype event = HandFrames "frame list" | SlideshowTimer | OverlayClose

text \<open>
  One render of the running scene: after the hand frames handled since the last render
  (the controller's refs are plain refs and change frame by frame; the setter calls
  are queued), after a tick of the slideshow timer, or after a click on the overlay.
  \<open>photos\<close> is the photo list passed to that render (uploads may change it between
  renders). The scene passes \<open>onSwipe\<close> to the controller.
\<close>

fun app_step ::
  "string list \<Rightarrow> event \<Rightarrow> scene_state \<times> hc_refs \<Rightarrow> js_error + (scene_state \<times> hc_refs)"
where
  "app_step photos (HandFrames fs) (s, refs) =
     (case run_frames True refs fs of
        Inl e \<Rightarrow> Inl e
      | Inr (refs', cs) \<Rightarrow> Inr (sceneBatch photos s (calls_made cs), refs'))"
| "app_step photos SlideshowTimer (s, refs) = Inr (slideshowTimer photos s, refs)"
| "app_step photos OverlayClose (s, refs) = Inr (onClose s, refs)"

inductive reachable :: "scene_state \<times> hc_refs \<Rightarrow> bool" where
  start: "reachable (initial_scene, initial_refs)"
| step: "reachable st \<Longrightarrow> app_step photos ev st = Inr st' \<Longrightarrow> reachable st'"

text \<open>
  The focused-photo overlay is rendered only when there are photos (outer \<open>None\<close>:
  not rendered); the inner option is the array read.
\<close>

definition focusedPhotoUrl :: "string list \<Rightarrow> scene_state \<Rightarrow> string option option" where
  "focusedPhotoUrl photos s =
     (if length photos > 0
      then Some (js_index photos (js_rem (slideshowIndex s) (Num (int (length photos)))))
      else None)"

section \<open>Tree: constants, photo ornaments and the animation loop\<close>

definition treeHeight :: real where
  "treeHeight = 14"

definition treeRadius :: real where
  "treeRadius = 4.5"

definition particleCount :: nat where
  "particleCount = 40000"

definition trunkCount :: nat where
  "trunkCount = 6000"

definition dustCount :: nat where
  "dustCount = 2000"

record ornament =
  position :: "real \<times> real \<times> real"
  photoIndex :: jsnum
  orn_id :: nat

definition photoOrnaments :: "string list \<Rightarrow> ornament list" where
  "photoOrnaments photos =
     (if length photos = 0 then []
      else
        map (\<lambda>i.
          let t = real i / 12;
              h = 0.2 + t * 0.6;
              y = (h * treeHeight) - treeHeight / 2;
              r = ((1 - h) * treeRadius) * 0.8;
              angle = t * pi * 4
          in \<lparr>position = (cos angle * r, y, sin angle * r),
               photoIndex = js_rem (Num (int i)) (Num (int (length photos))),
               orn_id = i\<rparr>) [0..<12])"

text \<open>The url of an ornament at render time (\<open>None\<close>: the ornament renders nothing).\<close>

definition ornamentUrl :: "string list \<Rightarrow> ornament \<Rightarrow> string option option" where
  "ornamentUrl photos ornm =
     (if length photos = 0 then None
      else Some (js_index photos (js_rem (photoIndex ornm) (Num (int (length photos))))))"

text \<open>
  The buffers of a particle group: flat arrays with three entries per particle.
  \<open>current\<close> is the array handed to the geometry's position attribute, so the
  \<open>positions\<close> of the animation loop is this array. Every store rounds the value
  to float32 (\<open>fround\<close>). Writing past the end of a typed array does nothing, as
  \<open>xs[i := v]\<close>; the arrays are allocated with three entries per particle, and the
  theorems below assume that shape.
\<close>

record particle_data =
  chaos :: "real list"
  formed :: "real list"
  current :: "real list"

record trunk_data =
  trunk_formed :: "real list"
  trunk_current :: "real list"

definition lerpSpeed :: real where
  "lerpSpeed = 0.03"

definition needle_noise :: "tree_state \<Rightarrow> real \<Rightarrow> nat \<Rightarrow> real" where
  "needle_noise mode t i = (if mode = FORMED then 0 else sin (t + real i) * 0.05)"

text \<open>One iteration of the needle loop, for particle \<open>i\<close> at clock \<open>t\<close>.\<close>

definition needle_step :: "tree_state \<Rightarrow> real \<Rightarrow> particle_data \<Rightarrow> nat \<Rightarrow> real list \<Rightarrow> real list" where
  "needle_step mode t needleData i positions =
     (let tx = (if mode = FORMED then formed needleData ! (i*3) else chaos needleData ! (i*3));
          ty = (if mode = FORMED then formed needleData ! (i*3+1) else chaos needleData ! (i*3+1));
          tz = (if mode = FORMED then formed needleData ! (i*3+2) else chaos needleData ! (i*3+2));
          noise = needle_noise mode t i;
          p1 = positions[i*3 := fround (lerp (positions ! (i*3)) (tx + noise) lerpSpeed)];
          p2 = p1[i*3+1 := fround (lerp (p1 ! (i*3+1)) (ty + noise) lerpSpeed)]
      in p2[i*3+2 := fround (lerp (p2 ! (i*3+2)) (tz + noise) lerpSpeed)])"

definition updateNeedles :: "tree_state \<Rightarrow> real \<Rightarrow> particle_data \<Rightarrow> particle_data" where
  "updateNeedles mode t needleData =
     needleData\<lparr>current := fold (needle_step mode t needleData) [0..<particleCount] (current needleData)\<rparr>"

definition trunk_step :: "tree_state \<Rightarrow> trunk_data \<Rightarrow> nat \<Rightarrow> real list \<Rightarrow> real list" where
  "trunk_step mode trunkData i positions =
     (let tx = (if mode = FORMED then trunk_formed trunkData ! (i*3)
                else trunk_formed trunkData ! (i*3) * 5);
          ty = (if mode = FORMED then trunk_formed trunkData ! (i*3+1)
                else trunk_formed trunkData ! (i*3+1) * 0.1);
          tz = (if mode = FORMED then trunk_formed trunkData ! (i*3+2)
                else trunk_formed trunkData ! (i*3+2) * 5);
          p1 = positions[i*3 := fround (lerp (positions ! (i*3)) tx lerpSpeed)];
          p2 = p1[i*3+1 := fround (lerp (p1 ! (i*3+1)) ty lerpSpeed)]
      in p2[i*3+2 := fround (lerp (p2 ! (i*3+2)) tz lerpSpeed)])"

definition updateTrunk :: "tree_state \<Rightarrow> trunk_data \<Rightarrow> trunk_data" where
  "updateTrunk mode trunkData =
     trunkData\<lparr>trunk_current :=
       fold (trunk_step mode trunkData) [0..<trunkCount] (trunk_current trunkData)\<rparr>"

text \<open>The target of dust particle \<open>i\<close> at clock \<open>t\<close>: spun and bobbing when formed.\<close>

definition dust_target :: "tree_state \<Rightarrow> real \<Rightarrow> particle_data \<Rightarrow> nat \<Rightarrow> real \<times> real \<times> real" where
  "dust_target mode t dustData i =
     (if mode = FORMED then
        (let angleOffset = t * 0.5;
             baseX = formed dustData ! (i*3);
             baseZ = formed dustData ! (i*3+2)
         in (baseX * cos angleOffset - baseZ * sin angleOffset,
             formed dustData ! (i*3+1) + sin (t + real i) * 0.2,
             baseX * sin angleOffset + baseZ * cos angleOffset))
      else (chaos dustData ! (i*3), chaos dustData ! (i*3+1), chaos dustData ! (i*3+2)))"

definition dust_step :: "tree_state \<Rightarrow> real \<Rightarrow> particle_data \<Rightarrow> nat \<Rightarrow> real list \<Rightarrow> real list" where
  "dust_step mode t dustData i positions =
     (case dust_target mode t dustData i of (tx, ty, tz) \<Rightarrow>
        (let p1 = positions[i*3 := fround (lerp (positions ! (i*3)) tx 0.02)];
             p2 = p1[i*3+1 := fround (lerp (p1 ! (i*3+1)) ty 0.02)]
         in p2[i*3+2 := fround (lerp (p2 ! (i*3+2)) tz 0.02)]))"

definition updateDust :: "tree_state \<Rightarrow> real \<Rightarrow> particle_data \<Rightarrow> particle_data" where
  "updateDust mode t dustData =
     dustData\<lparr>current := fold (dust_step mode t dustData) [0..<dustCount] (current dustData)\<rparr>"

section \<open>Atmosphere: the instanced ornament groups\<close>

record instance_config =
  count :: nat
  weight :: real
  inst_size :: real

definition gifts_config :: instance_config where
  "gifts_config = \<lparr>count = 45, weight = 0.02, inst_size = 0.35\<rparr>"

definition balls_config :: instance_config where
  "balls_config = \<lparr>count = 90, weight = 0.05, inst_size = 0.25\<rparr>"

definition lights_config :: instance_config where
  "lights_config = \<lparr>count = 150, weight = 0.15, inst_size = 0.08\<rparr>"

text \<open>
  The stored part of \<open>animateGroup\<close>: the blend of \<open>groupData.current\<close>. The hover
  offset, the rotation and the scale go to the instance matrix of the frame and are
  not written back to \<open>current\<close>.
\<close>

definition animate_step :: "tree_state \<Rightarrow> particle_data \<Rightarrow> instance_config \<Rightarrow> nat \<Rightarrow> real list \<Rightarrow> real list" where
  "animate_step mode groupData config i cur =
     (let ix3 = i * 3;
          targetX = (if mode = FORMED then formed groupData ! ix3 else chaos groupData ! ix3);
          targetY = (if mode = FORMED then formed groupData ! (ix3+1) else chaos groupData ! (ix3+1));
          targetZ = (if mode = FORMED then formed groupData ! (ix3+2) else chaos groupData ! (ix3+2));
          lerpFactor = weight config;
          c1 = cur[ix3 := fround (lerp (cur ! ix3) targetX lerpFactor)];
          c2 = c1[ix3+1 := fround (lerp (c1 ! (ix3+1)) targetY lerpFactor)]
      in c2[ix3+2 := fround (lerp (c2 ! (ix3+2)) targetZ lerpFactor)])"

definition animateGroup :: "tree_state \<Rightarrow> particle_data \<Rightarrow> instance_config \<Rightarrow> particle_data" where
  "animateGroup mode groupData config =
     groupData\<lparr>current := fold (animate_step mode groupData config) [0..<count config] (current groupData)\<rparr>"

text \<open>The position given to the instance matrix of particle \<open>i\<close> after the blend.\<close>

definition instancePosition :: "bool \<Rightarrow> real \<Rightarrow> particle_data \<Rightarrow> nat \<Rightarrow> real \<times> real \<times> real" where
  "instancePosition isLight time groupData i =
     (let hoverStrength = (if isLight then 0.05 else 0.01);
          yOffset = sin (time * 2 + real i) * hoverStrength
      in (current groupData ! (i*3), current groupData ! (i*3+1) + yOffset, current groupData ! (i*3+2)))"

section \<open>Repeated ticks with the mode held constant\<close>

text \<open>One tick per clock reading of the list, in order.\<close>

fun needles_ticks :: "tree_state \<Rightarrow> particle_data \<Rightarrow> real list \<Rightarrow> particle_data" where
  "needles_ticks mode d [] = d"
| "needles_ticks mode d (t # ts) = needles_ticks mode (updateNeedles mode t d) ts"

fun trunk_ticks :: "tree_state \<Rightarrow> trunk_data \<Rightarrow> nat \<Rightarrow> trunk_data" where
  "trunk_ticks mode d 0 = d"
| "trunk_ticks mode d (Suc n) = trunk_ticks mode (updateTrunk mode d) n"

fun dust_ticks :: "tree_state \<Rightarrow> particle_data \<Rightarrow> real list \<Rightarrow> particle_data" where
  "dust_ticks mode d [] = d"
| "dust_ticks mode d (t # ts) = dust_ticks mode (updateDust mode t d) ts"

fun animate_ticks :: "tree_state \<Rightarrow> particle_data \<Rightarrow> instance_config \<Rightarrow> nat \<Rightarrow> particle_data" where
  "animate_ticks mode d config 0 = d"
| "animate_ticks mode d config (Suc n) = animate_ticks mode (animateGroup mode d config) config n"

text \<open>The target of buffer entry \<open>j\<close> of the trunk in a mode.\<close>

definition trunk_target :: "tree_state \<Rightarrow> trunk_data \<Rightarrow> nat \<Rightarrow> real" where
  "trunk_target mode trunkData j =
     (if mode = FORMED then trunk_formed trunkData ! j
      else if j mod 3 = 1 then trunk_formed trunkData ! j * 0.1
      else trunk_formed trunkData ! j * 5)"

text \<open>
  What a loop stores for an entry \<open>c\<close> whose target is \<open>g\<close>: the blend by the factor
  \<open>a\<close>, rounded by the store.
\<close>

definition stored_blend :: "real \<Rightarrow> real \<Rightarrow> real \<Rightarrow> real" where
  "stored_blend a g c = fround (lerp c g a)"

text \<open>The target buffer of a group with a scattered and a formed layout.\<close>

definition target_of :: "tree_state \<Rightarrow> particle_data \<Rightarrow> real list" where
  "target_of mode d = (if mode = FORMED then formed d else chaos d)"

text \<open>The shape the buffers are allocated with, and the target of dust entry \<open>j\<close>.\<close>

definition wf_group :: "nat \<Rightarrow> particle_data \<Rightarrow> bool" where
  "wf_group n d \<longleftrightarrow>
     length (chaos d) = 3 * n \<and> length (formed d) = 3 * n \<and> length (current d) = 3 * n"

definition wf_trunk :: "trunk_data \<Rightarrow> bool" where
  "wf_trunk d \<longleftrightarrow>
     length (trunk_formed d) = 3 * trunkCount \<and> length (trunk_current d) = 3 * trunkCount"

definition dust_target_at :: "tree_state \<Rightarrow> real \<Rightarrow> particle_data \<Rightarrow> nat \<Rightarrow> real" where
  "dust_target_at mode t dustData j =
     (case dust_target mode t dustData (j div 3) of (tx, ty, tz) \<Rightarrow>
        if j mod 3 = 0 then tx else if j mod 3 = 1 then ty else tz)"

section \<open>Sample buffers\<close>

text \<open>
  Groups whose buffers hold one value each, and a dust group whose first particle rests
  on its formed position \<open>(27/8, 0, 0)\<close>.
\<close>

definition sample_group :: "nat \<Rightarrow> real \<Rightarrow> real \<Rightarrow> real \<Rightarrow> particle_data" where
  "sample_group n c f cur =
     \<lparr>chaos = replicate (3 * n) c, formed = replicate (3 * n) f, current = replicate (3 * n) cur\<rparr>"



section \<open>Sample hands\<close>

text \<open>
  A hand of 21 keypoints at horizontal position \<open>hx\<close>: the four fingertips (8, 12, 16,
  20) at the given heights, every other keypoint, the PIP joints among them, at 0.5.
\<close>

definition hand_at :: "real \<Rightarrow> real \<Rightarrow> real \<Rightarrow> real \<Rightarrow> real \<Rightarrow> landmark list" where
  "hand_at hx i m r p =
     map (\<lambda>k. \<lparr>lm_x = hx,
               lm_y = (if k = 8 then i else if k = 12 then m else if k = 16 then r
                       else if k = 20 then p else 0.5),
               lm_z = 0\<rparr>) [0..<21]"

definition victory_hand :: "real \<Rightarrow> landmark list" where
  "victory_hand hx = hand_at hx 0.2 0.2 0.8 0.8"

definition fist_hand :: "real \<Rightarrow> landmark list" where
  "fist_hand hx = hand_at hx 0.8 0.8 0.8 0.8"

definition open_hand :: "real \<Rightarrow> landmark list" where
  "open_hand hx = hand_at hx 0.2 0.2 0.2 0.2"

text \<open>A frame whose first hand has 21 keypoints and shows the victory pose.\<close>

definition victory_frame :: "frame \<Rightarrow> bool" where
  "victory_frame f \<longleftrightarrow> (case hands f of [] \<Rightarrow> False | lms # _ \<Rightarrow> 20 < length lms \<and> isVictory lms)"

text \<open>A victory frame read at clock \<open>t\<close>, and the state it leads to from the start.\<close>

definition victory_frame_at :: "int \<Rightarrow> real \<Rightarrow> frame" where
  "victory_frame_at t hx = \<lparr>hands = [victory_hand hx], now_select = t, now_swipe = t\<rparr>"

definition focused_scene :: scene_state where
  "focused_scene =
     \<lparr>treeState = CHAOS, focusMode = True, rotation = 0, slideshowIndex = Num 0, cameraZ = 18\<rparr>"

definition fist_frame_at :: "int \<Rightarrow> real \<Rightarrow> frame" where
  "fist_frame_at t hx = \<lparr>hands = [fist_hand hx], now_select = t, now_swipe = t\<rparr>"

text \<open>The state after a victory frame and a fist frame that share one render.\<close>

definition stuck_scene :: scene_state where
  "stuck_scene =
     \<lparr>treeState = FORMED, focusMode = True, rotation = 0, slideshowIndex = Num 0, cameraZ = 18\<rparr>"

definition focused_refs :: hc_refs where
  "focused_refs = \<lparr>lastHandX = Some 0.5, lastSwipeTime = 0, lastVictoryTime = 1000\<rparr>"

section \<open>Facts about the classifier\<close>

lemma hand_at_length: "length (hand_at hx i m r p) = 21"
  by (simp add: hand_at_def)

lemma hand_at_y:
  "k < 21 \<Longrightarrow> lm_y (hand_at hx i m r p ! k) =
     (if k = 8 then i else if k = 12 then m else if k = 16 then r
      else if k = 20 then p else 0.5)"
  by (simp add: hand_at_def del: upt_rec_numeral)

lemma hand_at_x: "k < 21 \<Longrightarrow> lm_x (hand_at hx i m r p ! k) = hx"
  by (simp add: hand_at_def del: upt_rec_numeral)

lemma victory_hand_isVictory: "isVictory (victory_hand hx)"
  by (simp add: isVictory_def isExtended_def victory_hand_def hand_at_y)

lemma victory_hand_length: "20 < length (victory_hand hx)"
  by (simp add: victory_hand_def hand_at_length)

lemma handFrame_hand:
  "20 < length lms \<Longrightarrow>
   handFrame sw refs (lms # rest) n1 n2 =
     Inr (refs\<lparr>lastVictoryTime := (if selectFires refs lms n1 then n1 else lastVictoryTime refs),
               lastSwipeTime := (if swipeOf sw refs lms n2 = None then lastSwipeTime refs else n2),
               lastHandX := Some (lm_x (lms ! 9))\<rparr>,
          Some \<lparr>setTreeState_arg = (if isFist lms then FORMED else CHAOS),
                setFocusMode_arg = (if selectFires refs lms n1 then Some True else None),
                onSwipe_arg = swipeOf sw refs lms n2,
                setRotation_arg = (lm_x (lms ! 9) - 0.5) * 2 * 0.05,
                setCameraZoom_arg = (lm_y (lms ! 9) - 0.5) * 2\<rparr>)"
  by (simp add: handFrame_def Let_def)

lemma victory_count: "isVictory lms \<Longrightarrow> fingersExtendedCount lms = 2"
  by (simp add: isVictory_def fingersExtendedCount_def)

lemma victory_not_fist: "isVictory lms \<Longrightarrow> \<not> isFist lms"
  by (simp add: isFist_def victory_count)

text \<open>
  Claim C3. For a frame with a hand of 21 keypoints the controller calls
  \<open>setTreeState\<close>, and in terms of the raw keypoints (a finger is extended exactly when
  its tip's y is smaller than its PIP joint's y) the value is \<open>FORMED\<close> exactly when
  fewer than two of index, middle, ring and pinky are extended and \<open>CHAOS\<close> otherwise.
  All four tips below their PIP joints (greater y) give \<open>FORMED\<close>, all four above give
  \<open>CHAOS\<close>.
\<close>

theorem classifier_treeState:
  assumes "20 < length lms"
  shows "\<exists>refs' c. handFrame sw refs (lms # rest) n1 n2 = Inr (refs', Some c) \<and>
     (setTreeState_arg c = FORMED \<longleftrightarrow>
        length (filter (\<lambda>b. b)
          [lm_y (lms ! 8) < lm_y (lms ! 6), lm_y (lms ! 12) < lm_y (lms ! 10),
           lm_y (lms ! 16) < lm_y (lms ! 14), lm_y (lms ! 20) < lm_y (lms ! 18)]) < 2) \<and>
     (setTreeState_arg c = CHAOS \<longleftrightarrow>
        \<not> length (filter (\<lambda>b. b)
          [lm_y (lms ! 8) < lm_y (lms ! 6), lm_y (lms ! 12) < lm_y (lms ! 10),
           lm_y (lms ! 16) < lm_y (lms ! 14), lm_y (lms ! 20) < lm_y (lms ! 18)]) < 2) \<and>
     (lm_y (lms ! 8) > lm_y (lms ! 6) \<and> lm_y (lms ! 12) > lm_y (lms ! 10) \<and>
      lm_y (lms ! 16) > lm_y (lms ! 14) \<and> lm_y (lms ! 20) > lm_y (lms ! 18)
        \<longrightarrow> setTreeState_arg c = FORMED) \<and>
     (lm_y (lms ! 8) < lm_y (lms ! 6) \<and> lm_y (lms ! 12) < lm_y (lms ! 10) \<and>
      lm_y (lms ! 16) < lm_y (lms ! 14) \<and> lm_y (lms ! 20) < lm_y (lms ! 18)
        \<longrightarrow> setTreeState_arg c = CHAOS)"
  unfolding handFrame_hand [OF assms]
  by (simp add: isFist_def fingersExtendedCount_def isExtended_def)

theorem classifier_treeState_witness:
  "20 < length (fist_hand 0.5) \<and>
   (\<exists>refs' c. handFrame True initial_refs [fist_hand 0.5] 1000 1000 = Inr (refs', Some c) \<and>
      setTreeState_arg c = FORMED) \<and>
   (\<exists>refs' c. handFrame True initial_refs [open_hand 0.5] 1000 1000 = Inr (refs', Some c) \<and>
      setTreeState_arg c = CHAOS)"
proof -
  have l1: "20 < length (fist_hand 0.5)" and l2: "20 < length (open_hand 0.5)"
    by (simp_all add: fist_hand_def open_hand_def hand_at_length)
  show ?thesis
    using l1 classifier_treeState [OF l1, of True initial_refs "[]" 1000 1000]
      classifier_treeState [OF l2, of True initial_refs "[]" 1000 1000]
    by (auto simp add: fist_hand_def open_hand_def hand_at_y)
qed

text \<open>
  Claim C9. A frame whose hand shows the victory pose has exactly two extended
  fingers, so it is not a fist and the controller calls \<open>setTreeState('CHAOS')\<close> in
  that frame; whenever a frame requests focus, the same frame commands \<open>CHAOS\<close>.
\<close>

theorem victory_commands_chaos:
  assumes "20 < length lms"
  shows "\<exists>refs' c. handFrame sw refs (lms # rest) n1 n2 = Inr (refs', Some c) \<and>
     (isVictory lms \<longrightarrow>
        fingersExtendedCount lms = 2 \<and> \<not> isFist lms \<and> setTreeState_arg c = CHAOS) \<and>
     (setFocusMode_arg c = Some True \<longrightarrow> isVictory lms \<and> setTreeState_arg c = CHAOS)"
  unfolding handFrame_hand [OF assms]
  by (auto simp add: victory_not_fist victory_count selectFires_def)

theorem victory_commands_chaos_witness:
  "20 < length (victory_hand 0.5) \<and> isVictory (victory_hand 0.5) \<and>
   (\<exists>refs' c. handFrame True initial_refs [victory_hand 0.5] 1000 1000 = Inr (refs', Some c) \<and>
      setFocusMode_arg c = Some True \<and> setTreeState_arg c = CHAOS)"
proof -
  have l: "20 < length (victory_hand 0.5)" by (rule victory_hand_length)
  have v: "isVictory (victory_hand 0.5)" by (rule victory_hand_isVictory)
  from victory_commands_chaos [OF l, of True initial_refs "[]" 1000 1000] v
  obtain refs' c where
    h: "handFrame True initial_refs [victory_hand 0.5] 1000 1000 = Inr (refs', Some c)" and
    t: "setTreeState_arg c = CHAOS"
    by blast
  have "setFocusMode_arg c = Some True"
    using h unfolding handFrame_hand [OF l]
    by (auto simp add: selectFires_def victory_hand_isVictory initial_refs_def)
  with h t l v show ?thesis by blast
qed

text \<open>
  Claim C2. On a frame with a hand the controller stores the hand's x (keypoint 9) in
  \<open>lastHandX\<close>, whether or not a swipe fired. When the victory pose is held and a
  previous sample exists, \<open>onSwipe\<close> is called if and only if the absolute difference
  to the previous sample exceeds 0.03 and more than 500 ms have passed since the last
  swipe; the direction is right for a positive difference and left otherwise, and
  calling it sets \<open>lastSwipeTime\<close> to the clock reading.
\<close>

theorem swipe_detection:
  assumes "20 < length lms"
  shows "\<exists>refs' c. handFrame True refs (lms # rest) n1 n2 = Inr (refs', Some c) \<and>
     lastHandX refs' = Some (lm_x (lms ! 9)) \<and>
     (isVictory lms \<longrightarrow> (\<forall>lastX. lastHandX refs = Some lastX \<longrightarrow>
        (onSwipe_arg c \<noteq> None \<longleftrightarrow>
           \<bar>lm_x (lms ! 9) - lastX\<bar> > 0.03 \<and> n2 - lastSwipeTime refs > 500) \<and>
        (onSwipe_arg c \<noteq> None \<longrightarrow>
           onSwipe_arg c = Some (if lm_x (lms ! 9) - lastX > 0 then right else left)) \<and>
        lastSwipeTime refs' = (if onSwipe_arg c \<noteq> None then n2 else lastSwipeTime refs)))"
  unfolding handFrame_hand [OF assms]
  by (simp add: swipeOf_def Let_def SWIPE_THRESHOLD_def SWIPE_COOLDOWN_def)

theorem swipe_detection_witness:
  "20 < length (victory_hand 0.45) \<and> isVictory (victory_hand 0.45) \<and>
   (\<exists>refs' c. handFrame True \<lparr>lastHandX = Some 0.40, lastSwipeTime = 0, lastVictoryTime = 900\<rparr>
        [victory_hand 0.45] 1000 1000 = Inr (refs', Some c) \<and>
      onSwipe_arg c = Some right \<and> lastSwipeTime refs' = 1000 \<and> lastHandX refs' = Some 0.45)"
proof -
  have l: "20 < length (victory_hand 0.45)" by (rule victory_hand_length)
  have v: "isVictory (victory_hand 0.45)" by (rule victory_hand_isVictory)
  have x: "lm_x (victory_hand 0.45 ! 9) = 0.45"
    by (simp add: victory_hand_def hand_at_x)
  let ?r = "\<lparr>lastHandX = Some 0.40, lastSwipeTime = 0, lastVictoryTime = 900\<rparr>"
  from swipe_detection [OF l, of ?r "[]" 1000 1000]
  obtain refs' c where
    h: "handFrame True ?r [victory_hand 0.45] 1000 1000 = Inr (refs', Some c)" and
    hx: "lastHandX refs' = Some (lm_x (victory_hand 0.45 ! 9))" and
    imp: "isVictory (victory_hand 0.45) \<longrightarrow> (\<forall>lastX. lastHandX ?r = Some lastX \<longrightarrow>
        (onSwipe_arg c \<noteq> None \<longleftrightarrow>
           \<bar>lm_x (victory_hand 0.45 ! 9) - lastX\<bar> > 0.03 \<and> 1000 - lastSwipeTime ?r > 500) \<and>
        (onSwipe_arg c \<noteq> None \<longrightarrow>
           onSwipe_arg c = Some (if lm_x (victory_hand 0.45 ! 9) - lastX > 0 then right else left)) \<and>
        lastSwipeTime refs' = (if onSwipe_arg c \<noteq> None then 1000 else lastSwipeTime ?r))"
    by blast
  have s: "lastHandX ?r = Some 0.40" by simp
  from imp [rule_format, OF v s] have "onSwipe_arg c = Some right \<and> lastSwipeTime refs' = 1000"
    unfolding x by simp
  with h hx l v show ?thesis unfolding x by blast
qed

section \<open>The selection debounce over a run of frames\<close>

lemma focusRequested_Some:
  "focusRequested (Some c) \<longleftrightarrow> setFocusMode_arg c = Some True"
  by (simp add: focusRequested_def)

lemma run_frames_victory:
  assumes "\<forall>f\<in>set fs. victory_frame f"
  shows "\<exists>refs' cs. run_frames sw refs fs = Inr (refs', cs) \<and> length cs = length fs \<and>
     (\<forall>j<length fs. focusRequested (cs ! j) \<longrightarrow>
        now_select (fs ! j) - lastVictoryTime refs > 800 \<and>
        (\<forall>i<j. focusRequested (cs ! i) \<longrightarrow> now_select (fs ! j) - now_select (fs ! i) > 800))"
  using assms
proof (induction fs arbitrary: refs)
  case Nil
  then show ?case by simp
next
  case (Cons f fs)
  from Cons.prems obtain lms rest where hf: "hands f = lms # rest"
    and len: "20 < length lms" and vic: "isVictory lms"
    by (auto simp add: victory_frame_def split: list.splits)
  define sel where "sel = selectFires refs lms (now_select f)"
  obtain refs1 c where
    step: "handFrame sw refs (hands f) (now_select f) (now_swipe f) = Inr (refs1, Some c)" and
    last1: "lastVictoryTime refs1 = (if sel then now_select f else lastVictoryTime refs)" and
    req: "setFocusMode_arg c = Some True \<longleftrightarrow> sel"
    unfolding hf handFrame_hand [OF len] sel_def by simp
  have selD: "sel \<Longrightarrow> now_select f - lastVictoryTime refs > 800"
    by (simp add: sel_def selectFires_def)
  from Cons.prems have "\<forall>g\<in>set fs. victory_frame g" by simp
  from Cons.IH [OF this, of refs1] obtain refs' cs where
    run: "run_frames sw refs1 fs = Inr (refs', cs)" and lcs: "length cs = length fs" and
    ih: "\<And>j. j < length fs \<Longrightarrow> focusRequested (cs ! j) \<Longrightarrow>
        now_select (fs ! j) - lastVictoryTime refs1 > 800 \<and>
        (\<forall>i<j. focusRequested (cs ! i) \<longrightarrow> now_select (fs ! j) - now_select (fs ! i) > 800)"
    by blast
  have run': "run_frames sw refs (f # fs) = Inr (refs', Some c # cs)"
    by (simp add: step run)
  have "focusRequested ((Some c # cs) ! j) \<longrightarrow>
        now_select ((f # fs) ! j) - lastVictoryTime refs > 800 \<and>
        (\<forall>i<j. focusRequested ((Some c # cs) ! i) \<longrightarrow>
            now_select ((f # fs) ! j) - now_select ((f # fs) ! i) > 800)"
    if j: "j < length (f # fs)" for j
  proof (cases j)
    case 0
    then show ?thesis using selD req by (simp add: focusRequested_Some)
  next
    case (Suc k)
    with j have k: "k < length fs" by simp
    show ?thesis
    proof
      assume "focusRequested ((Some c # cs) ! j)"
      then have fk: "focusRequested (cs ! k)" by (simp add: Suc)
      from ih [OF k fk] have a: "now_select (fs ! k) - lastVictoryTime refs1 > 800"
        and b: "\<And>i. i < k \<Longrightarrow> focusRequested (cs ! i) \<Longrightarrow>
            now_select (fs ! k) - now_select (fs ! i) > 800"
        by auto
      have c1: "now_select (fs ! k) - lastVictoryTime refs > 800"
        using a last1 selD by (cases sel) auto
      have c2: "focusRequested ((Some c # cs) ! i) \<longrightarrow>
            now_select (fs ! k) - now_select ((f # fs) ! i) > 800" if "i < j" for i
      proof (cases i)
        case 0
        then show ?thesis using a last1 req by (auto simp add: focusRequested_Some)
      next
        case (Suc i')
        then show ?thesis using b [of i'] that \<open>j = Suc k\<close> by simp
      qed
      show "now_select ((f # fs) ! j) - lastVictoryTime refs > 800 \<and>
        (\<forall>i<j. focusRequested ((Some c # cs) ! i) \<longrightarrow>
            now_select ((f # fs) ! j) - now_select ((f # fs) ! i) > 800)"
        using c1 c2 by (simp add: Suc)
    qed
  qed
  moreover from lcs have "length (Some c # cs) = length (f # fs)" by simp
  ultimately show ?case using run' by blast
qed

lemma run_frames_window:
  assumes "\<forall>f\<in>set fs. victory_frame f"
  shows "\<exists>refs' cs. run_frames sw refs fs = Inr (refs', cs) \<and> length cs = length fs \<and>
     (\<forall>j<length fs. \<forall>i<j. focusRequested (cs ! i) \<and> focusRequested (cs ! j) \<longrightarrow>
        now_select (fs ! j) - now_select (fs ! i) > 800) \<and>
     (\<forall>w. card {j. j < length fs \<and> focusRequested (cs ! j) \<and>
              w \<le> now_select (fs ! j) \<and> now_select (fs ! j) \<le> w + 800} \<le> 1)"
proof -
  from run_frames_victory [OF assms, of sw refs] obtain refs' cs where
    run: "run_frames sw refs fs = Inr (refs', cs)" and lcs: "length cs = length fs" and
    far: "\<And>i j. j < length fs \<Longrightarrow> i < j \<Longrightarrow> focusRequested (cs ! i) \<Longrightarrow> focusRequested (cs ! j)
        \<Longrightarrow> now_select (fs ! j) - now_select (fs ! i) > 800"
    by blast
  have "card {j. j < length fs \<and> focusRequested (cs ! j) \<and>
              w \<le> now_select (fs ! j) \<and> now_select (fs ! j) \<le> w + 800} \<le> 1" for w
  proof -
    let ?A = "{j. j < length fs \<and> focusRequested (cs ! j) \<and>
              w \<le> now_select (fs ! j) \<and> now_select (fs ! j) \<le> w + 800}"
    have fin: "finite ?A" by simp
    have "a = b" if "a \<in> ?A" and "b \<in> ?A" for a b
    proof (rule ccontr)
      assume "a \<noteq> b"
      then consider "a < b" | "b < a" by linarith
      then show False
      proof cases
        case 1
        with far [of b a] that show False by auto
      next
        case 2
        with far [of a b] that show False by auto
      qed
    qed
    then have "card ?A \<le> Suc 0"
      using fin by (subst card_le_Suc0_iff_eq) auto
    then show ?thesis by simp
  qed
  with run lcs far show ?thesis by blast
qed

text \<open>
  Claim C4. On a run of frames that all show the victory pose, every frame calls
  \<open>setFocusMode(true)\<close> exactly when its clock reading exceeds \<open>lastVictoryTime\<close>
  by more than 800 ms, and then stores the reading; two requests of the run are
  therefore more than 800 ms apart, and at most one falls into any window of 800 ms.
\<close>

theorem select_debounce:
  assumes "\<forall>f\<in>set fs. victory_frame f"
  shows "\<exists>refs' cs. run_frames sw refs fs = Inr (refs', cs) \<and> length cs = length fs \<and>
     (\<forall>j<length fs. \<forall>i<j. focusRequested (cs ! i) \<and> focusRequested (cs ! j) \<longrightarrow>
        now_select (fs ! j) - now_select (fs ! i) > 800) \<and>
     (\<forall>w. card {j. j < length fs \<and> focusRequested (cs ! j) \<and>
              w \<le> now_select (fs ! j) \<and> now_select (fs ! j) \<le> w + 800} \<le> 1) \<and>
     (\<forall>f\<in>set fs. \<forall>r. \<exists>r' c.
        handFrame sw r (hands f) (now_select f) (now_swipe f) = Inr (r', Some c) \<and>
        (focusRequested (Some c) \<longleftrightarrow> now_select f - lastVictoryTime r > 800) \<and>
        lastVictoryTime r' =
          (if focusRequested (Some c) then now_select f else lastVictoryTime r))"
proof -
  have "\<exists>r' c.
        handFrame sw r (hands f) (now_select f) (now_swipe f) = Inr (r', Some c) \<and>
        (focusRequested (Some c) \<longleftrightarrow> now_select f - lastVictoryTime r > 800) \<and>
        lastVictoryTime r' =
          (if focusRequested (Some c) then now_select f else lastVictoryTime r)"
    if "f \<in> set fs" for f r
  proof -
    from that assms have "victory_frame f" by blast
    then obtain lms rest where hf: "hands f = lms # rest"
      and len: "20 < length lms" and vic: "isVictory lms"
      by (cases "hands f") (auto simp add: victory_frame_def)
    show ?thesis
      unfolding hf handFrame_hand [OF len]
      by (simp add: focusRequested_Some selectFires_def vic)
  qed
  with run_frames_window [OF assms, of sw refs] show ?thesis by blast
qed

lemma victory_frame_at_victory: "victory_frame (victory_frame_at t hx)"
  using victory_hand_length [of hx]
  by (simp add: victory_frame_def victory_frame_at_def victory_hand_isVictory)

theorem select_debounce_witness:
  "victory_frame (victory_frame_at 1000 0.5) \<and> victory_frame (victory_frame_at 1500 0.5) \<and>
   victory_frame (victory_frame_at 1900 0.5) \<and>
   (\<exists>refs' cs.
      run_frames True initial_refs
        [victory_frame_at 1000 0.5, victory_frame_at 1500 0.5, victory_frame_at 1900 0.5]
        = Inr (refs', cs) \<and>
      map focusRequested cs = [True, False, True] \<and> lastVictoryTime refs' = 1900)"
proof -
  let ?fs = "[victory_frame_at 1000 0.5, victory_frame_at 1500 0.5, victory_frame_at 1900 0.5]"
  have v: "\<forall>f\<in>set ?fs. victory_frame f"
    by (simp add: victory_frame_at_victory)
  from select_debounce [OF v, of True initial_refs] obtain refs' cs where
    run: "run_frames True initial_refs ?fs = Inr (refs', cs)"
    by blast
  have res: "map focusRequested cs = [True, False, True] \<and> lastVictoryTime refs' = 1900"
    using run
    by (auto simp add: victory_frame_at_def handFrame_hand [OF victory_hand_length]
        selectFires_def victory_hand_isVictory initial_refs_def focusRequested_def)
  have ex: "\<exists>refs' cs. run_frames True initial_refs ?fs = Inr (refs', cs) \<and>
      map focusRequested cs = [True, False, True] \<and> lastVictoryTime refs' = 1900"
    by (rule exI [of _ refs'], rule exI [of _ cs], rule conjI [OF run res])
  from ex show ?thesis by (simp add: victory_frame_at_victory)
qed

section \<open>The scene's state machine\<close>

lemma fist_not_victory: "isFist lms \<Longrightarrow> \<not> isVictory lms"
  using victory_not_fist by blast

lemma commit_focus:
  "focusMode (commit s n) \<longleftrightarrow>
     focusMode n \<and> \<not> (treeState n \<noteq> treeState s \<and> treeState n = FORMED)"
  by (simp add: commit_def)

lemma commit_treeState: "treeState (commit s n) = treeState n"
  by (simp add: commit_def)

lemma handleSwipe_fields:
  "treeState (handleSwipe photos d s) = treeState s"
  "focusMode (handleSwipe photos d s) = focusMode s"
  by (simp_all add: handleSwipe_def Let_def)

lemma sceneFrame_treeState: "treeState (sceneFrame photos s c) = setTreeState_arg c"
  by (simp add: sceneFrame_def Let_def commit_treeState handleZoom_def split: option.splits)

lemma sceneFrame_focus:
  "focusMode (sceneFrame photos s c) \<longleftrightarrow>
     (case setFocusMode_arg c of None \<Rightarrow> focusMode s | Some b \<Rightarrow> b) \<and>
     \<not> (setTreeState_arg c \<noteq> treeState s \<and> setTreeState_arg c = FORMED)"
  by (simp add: sceneFrame_def Let_def commit_focus handleZoom_def split: option.splits)

lemma sceneBatch_single: "sceneBatch photos s [c] = sceneFrame photos s c"
  by (simp add: sceneBatch_def applyCalls_def sceneFrame_def handleSwipe_def Let_def
      split: option.splits)

text \<open>A render that turns the rendered \<open>CHAOS\<close> into \<open>FORMED\<close> closes focus mode.\<close>

lemma render_to_formed_resets_focus:
  "treeState s = CHAOS \<Longrightarrow> treeState (sceneBatch photos s cs) = FORMED \<Longrightarrow>
   \<not> focusMode (sceneBatch photos s cs)"
  by (auto simp add: sceneBatch_def commit_def split: if_splits)

lemma victory_hand_9:
  "lm_x (victory_hand hx ! 9) = hx" "lm_y (victory_hand hx ! 9) = 0.5"
  by (simp_all add: victory_hand_def hand_at_x hand_at_y)

lemma fist_hand_facts:
  "20 < length (fist_hand hx)" "isFist (fist_hand hx)"
  "lm_x (fist_hand hx ! 9) = hx" "lm_y (fist_hand hx ! 9) = 0.5"
  by (simp_all add: fist_hand_def hand_at_length hand_at_x hand_at_y isFist_def
      fingersExtendedCount_def isExtended_def)

lemma victory_then_fist:
  "run_frames True initial_refs [victory_frame_at 1000 0.5, fist_frame_at 1016 0.5] =
     Inr (focused_refs,
          [Some \<lparr>setTreeState_arg = CHAOS, setFocusMode_arg = Some True, onSwipe_arg = None,
                 setRotation_arg = 0, setCameraZoom_arg = 0\<rparr>,
           Some \<lparr>setTreeState_arg = FORMED, setFocusMode_arg = None, onSwipe_arg = None,
                 setRotation_arg = 0, setCameraZoom_arg = 0\<rparr>])"
  by (simp add: victory_frame_at_def fist_frame_at_def handFrame_hand [OF victory_hand_length]
      handFrame_hand [OF fist_hand_facts(1)] selectFires_def victory_hand_isVictory
      victory_not_fist fist_not_victory fist_hand_facts swipeOf_def initial_refs_def
      focused_refs_def victory_hand_9)

lemma fist_when_stuck:
  "run_frames True focused_refs [fist_frame_at 2000 0.5] =
     Inr (focused_refs,
          [Some \<lparr>setTreeState_arg = FORMED, setFocusMode_arg = None, onSwipe_arg = None,
                 setRotation_arg = 0, setCameraZoom_arg = 0\<rparr>])"
  by (simp add: fist_frame_at_def handFrame_hand [OF fist_hand_facts(1)] selectFires_def
      fist_not_victory fist_hand_facts swipeOf_def focused_refs_def)

lemma stuck_step:
  "app_step [] (HandFrames [victory_frame_at 1000 0.5, fist_frame_at 1016 0.5])
     (initial_scene, initial_refs) = Inr (stuck_scene, focused_refs)"
  unfolding app_step.simps victory_then_fist
  by (simp add: calls_made_def sceneBatch_def applyCalls_def Let_def
      handleZoom_def lerp_def commit_def initial_scene_def stuck_scene_def)

text \<open>
  Claim C1, at the input where the code fails it. A victory frame and a fist frame
  handled before one render leave \<open>treeState = FORMED\<close>, which is what the last render
  had, so the effect keyed on \<open>treeState\<close> does not run and \<open>focusMode\<close> stays true. The
  state is reachable, and from it neither \<open>setTreeState('FORMED')\<close> nor a further fist
  frame closes focus mode.
\<close>

theorem batched_fist_keeps_focus:
  "app_step [] (HandFrames [victory_frame_at 1000 0.5, fist_frame_at 1016 0.5])
     (initial_scene, initial_refs) = Inr (stuck_scene, focused_refs) \<and>
   reachable (stuck_scene, focused_refs) \<and>
   treeState stuck_scene = FORMED \<and> focusMode stuck_scene \<and>
   setTreeState FORMED stuck_scene = stuck_scene \<and>
   app_step [] (HandFrames [fist_frame_at 2000 0.5]) (stuck_scene, focused_refs)
     = Inr (stuck_scene, focused_refs)"
proof -
  from reachable.step [OF reachable.start stuck_step]
  have r: "reachable (stuck_scene, focused_refs)" .
  have a: "setTreeState FORMED stuck_scene = stuck_scene"
    by (simp add: setTreeState_def commit_def stuck_scene_def)
  have b: "app_step [] (HandFrames [fist_frame_at 2000 0.5]) (stuck_scene, focused_refs)
     = Inr (stuck_scene, focused_refs)"
    unfolding app_step.simps fist_when_stuck
    by (simp add: calls_made_def sceneBatch_def applyCalls_def Let_def
        handleZoom_def lerp_def commit_def stuck_scene_def)
  from stuck_step r a b show ?thesis
    by (simp add: stuck_scene_def)
qed

text \<open>
  Claim C10. With \<open>focusMode = false\<close> a swipe in either direction leaves the whole
  scene state unchanged, also when it arrives inside a hand frame; a swipe changes the
  state only when focus mode is active and the photo list is not empty.
\<close>

theorem swipe_needs_focus:
  "(\<not> focusMode s \<longrightarrow>
      handleSwipe photos dir s = s \<and>
      slideshowIndex (sceneFrame photos s c) = slideshowIndex s) \<and>
   (handleSwipe photos dir s \<noteq> s \<longrightarrow> focusMode s \<and> photos \<noteq> [])"
  by (auto simp add: handleSwipe_def sceneFrame_def Let_def commit_def handleZoom_def
      split: option.splits)

theorem swipe_needs_focus_witness:
  "\<not> focusMode initial_scene \<and>
   handleSwipe [''a.jpg'', ''b.jpg''] right initial_scene = initial_scene \<and>
   handleSwipe [''a.jpg'', ''b.jpg''] left initial_scene = initial_scene"
  using swipe_needs_focus [of initial_scene "[''a.jpg'', ''b.jpg'']" right]
    swipe_needs_focus [of initial_scene "[''a.jpg'', ''b.jpg'']" left]
  by (simp add: initial_scene_def)

text \<open>
  Claim C8. With an empty photo list a swipe and the slideshow timer leave the state
  unchanged, so no remainder by zero is computed; the overlay is not rendered, so no
  photo is read; and the photo ornaments are the empty list.
\<close>

theorem empty_photo_list:
  "handleSwipe [] dir s = s \<and> slideshowTimer [] s = s \<and>
   slideshowIndex (sceneFrame [] s c) = slideshowIndex s \<and>
   focusedPhotoUrl [] s = None \<and>
   photoOrnaments [] = [] \<and> map (ornamentUrl []) (photoOrnaments []) = []"
  by (auto simp add: handleSwipe_def slideshowTimer_def sceneFrame_def Let_def commit_def
      handleZoom_def focusedPhotoUrl_def photoOrnaments_def split: option.splits)

theorem empty_photo_list_witness:
  "handleSwipe [] right focused_scene = focused_scene \<and>
   handleSwipe [] left focused_scene = focused_scene \<and>
   slideshowTimer [] focused_scene = focused_scene \<and>
   slideshowIndex focused_scene = Num 0 \<and>
   js_rem (js_add (slideshowIndex focused_scene) (Num 1)) (Num (int (length ([] :: string list)))) = NaN \<and>
   photoOrnaments [] = []"
  using empty_photo_list [of right focused_scene] empty_photo_list [of left focused_scene]
  by (simp add: focused_scene_def)

section \<open>Rounding to float32\<close>

text \<open>
  The rounded value is a float32, no float32 is nearer to the exact value, the error
  is at most \<open>2^-24\<close> of the magnitude (plus \<open>2^-150\<close> in the subnormal range), and
  every rounded value is a multiple of \<open>2^-149\<close>. The last lemma evaluates the
  rounding of a given number from its exponent and its mantissa.
\<close>

lemma rte_near: "\<bar>of_int (round_ties_even r) - r\<bar> \<le> 1/2"
  unfolding round_ties_even_def Let_def by auto

lemma rte_nearest: "\<bar>of_int (round_ties_even r) - r\<bar> \<le> \<bar>of_int k - r\<bar>"
proof (cases "k = round_ties_even r")
  case True
  then show ?thesis by simp
next
  case False
  then have "1 \<le> \<bar>k - round_ties_even r\<bar>" by linarith
  then have "(1::real) \<le> \<bar>of_int k - of_int (round_ties_even r)\<bar>"
    by (metis of_int_1_le_iff of_int_abs of_int_diff)
  with rte_near [of r] show ?thesis by linarith
qed




lemma rte_eval: "of_int k - 1/2 < r \<Longrightarrow> r < of_int k + 1/2 \<Longrightarrow> round_ties_even r = k"
proof -
  assume a: "of_int k - 1/2 < r" "r < of_int k + 1/2"
  have "\<bar>of_int (round_ties_even r) - of_int k\<bar> < (1::real)"
    using rte_near [of r] a by linarith
  then have "\<bar>round_ties_even r - k\<bar> < 1"
    by (metis of_int_abs of_int_diff of_int_less_1_iff)
  then show ?thesis by linarith
qed

lemma ulp_pos: "0 < f32_ulp a"
  by (simp add: f32_ulp_def)

lemma exponent_ge: "- 126 \<le> f32_exponent a"
  by (simp add: f32_exponent_def)

lemma below_next_binade:
  assumes "0 < a"
  shows "a < 2 powr of_int (f32_exponent a + 1)"
proof -
  have "a < 2 powr (of_int \<lfloor>log 2 a\<rfloor> + 1)"
    using assms floor_log_eq_powr_iff [of a 2 "\<lfloor>log 2 a\<rfloor>"] by simp
  also have "\<dots> \<le> 2 powr of_int (f32_exponent a + 1)"
    by (simp add: f32_exponent_def)
  finally show ?thesis .
qed

lemma normal_binade:
  assumes "0 < a" and "- 126 < f32_exponent a"
  shows "f32_exponent a = \<lfloor>log 2 a\<rfloor>" and "2 powr of_int (f32_exponent a) \<le> a"
proof -
  from assms(2) show e: "f32_exponent a = \<lfloor>log 2 a\<rfloor>"
    by (simp add: f32_exponent_def max_def split: if_splits)
  show "2 powr of_int (f32_exponent a) \<le> a"
    unfolding e using assms(1) floor_log_eq_powr_iff [of a 2 "\<lfloor>log 2 a\<rfloor>"] by simp
qed

lemma exponent_eq:
  assumes "0 < a" and "- 126 \<le> e" and "2 powr of_int e \<le> a" and "a < 2 powr of_int (e + 1)"
  shows "f32_exponent a = e"
proof -
  have "\<lfloor>log 2 a\<rfloor> = e"
    using assms floor_log_eq_powr_iff [of a 2 e] by simp
  with assms(2) show ?thesis by (simp add: f32_exponent_def)
qed


lemma pow2_split: "(2::real) powr of_int (a + b) = 2 powr of_int a * 2 powr of_int b"
  by (simp add: powr_add)

lemma pow2_int: "0 \<le> k \<Longrightarrow> (2::real) powr of_int k = of_int (2 ^ nat k)"
  by (simp add: powr_real_of_int)

lemma ulp_scale:
  "2 powr of_int (f32_exponent a + 1) = 2 ^ 24 * f32_ulp a"
  "2 powr of_int (f32_exponent a) = 2 ^ 23 * f32_ulp a"
  "2 powr of_int (f32_exponent a + 1 - 23) = 2 * f32_ulp a"
proof -
  let ?x = "of_int (f32_exponent a - 23) :: real"
  have "2 powr of_int (f32_exponent a + 1) = 2 powr (?x + 24)"
    by (rule arg_cong [where f = "\<lambda>y. 2 powr y"]) simp
  then show "2 powr of_int (f32_exponent a + 1) = 2 ^ 24 * f32_ulp a"
    by (simp only: powr_add f32_ulp_def) simp
  have "2 powr of_int (f32_exponent a) = 2 powr (?x + 23)"
    by (rule arg_cong [where f = "\<lambda>y. 2 powr y"]) simp
  then show "2 powr of_int (f32_exponent a) = 2 ^ 23 * f32_ulp a"
    by (simp only: powr_add f32_ulp_def) simp
  have "2 powr of_int (f32_exponent a + 1 - 23) = 2 powr (?x + 1)"
    by (rule arg_cong [where f = "\<lambda>y. 2 powr y"]) simp
  then show "2 powr of_int (f32_exponent a + 1 - 23) = 2 * f32_ulp a"
    by (simp only: powr_add f32_ulp_def) simp
qed




lemma fround_0: "fround 0 = 0"
  by (simp add: fround_def)

lemma fround_pos: "0 < x \<Longrightarrow> fround x = round_mag x"
  by (simp add: fround_def)

lemma fround_minus: "fround (- x) = - fround x"
  by (simp add: fround_def sgn_minus)

lemma f32_minus: "f32 (- x) \<longleftrightarrow> f32 x"
  by (simp add: f32_def fround_minus)




lemma mag_nearest_grid:
  assumes "0 < a"
  shows "\<bar>round_mag a - a\<bar> \<le> \<bar>of_int k * f32_ulp a - a\<bar>"
proof -
  let ?u = "f32_ulp a"
  let ?n = "round_ties_even (a / ?u)"
  have u: "0 < ?u" by (rule ulp_pos)
  have "\<bar>round_mag a - a\<bar> = \<bar>of_int ?n - a / ?u\<bar> * ?u"
  proof -
    have "round_mag a - a = (of_int ?n - a / ?u) * ?u"
      using u by (simp add: round_mag_def algebra_simps)
    then show ?thesis using u by (simp add: abs_mult)
  qed
  also have "\<dots> \<le> \<bar>of_int k - a / ?u\<bar> * ?u"
    using rte_nearest [of "a / ?u" k] u by (intro mult_right_mono) simp_all
  also have "\<dots> = \<bar>of_int k * ?u - a\<bar>"
  proof -
    have "of_int k * ?u - a = (of_int k - a / ?u) * ?u"
      using u by (simp add: algebra_simps)
    then show ?thesis using u by (simp add: abs_mult)
  qed
  finally show ?thesis .
qed

lemma mag_half_ulp:
  assumes "0 < a"
  shows "\<bar>round_mag a - a\<bar> \<le> a / 2 ^ 24 + 1 / 2 ^ 150"
proof -
  let ?u = "f32_ulp a"
  let ?n = "round_ties_even (a / ?u)"
  have u: "0 < ?u" by (rule ulp_pos)
  have "round_mag a - a = (of_int ?n - a / ?u) * ?u"
    using u by (simp add: round_mag_def algebra_simps)
  then have "\<bar>round_mag a - a\<bar> = \<bar>of_int ?n - a / ?u\<bar> * ?u"
    using u by (simp add: abs_mult)
  also have "\<dots> \<le> 1/2 * ?u"
    using rte_near [of "a / ?u"] u by (intro mult_right_mono) simp_all
  finally have half: "\<bar>round_mag a - a\<bar> \<le> ?u / 2" by simp
  show ?thesis
  proof (cases "- 126 < f32_exponent a")
    case True
    from normal_binade(2) [OF assms True] have "2 ^ 23 * ?u \<le> a"
      by (simp only: ulp_scale)
    then have "?u / 2 \<le> a / 2 ^ 24" by simp
    with half show ?thesis by simp
  next
    case False
    with exponent_ge [of a] have "f32_exponent a = - 126" by simp
    then have "?u = 2 powr (- 149)" by (simp add: f32_ulp_def)
    then have "?u = 1 / 2 ^ 149" by (simp add: powr_neg_numeral)
    then have "?u / 2 = 1 / 2 ^ 150" by simp
    with half assms show ?thesis by simp
  qed
qed


lemma fixed_mag_grid:
  assumes "0 < a" and "0 < b" and "round_mag b = b"
  shows "(\<exists>k::int. b = of_int k * f32_ulp a) \<or>
     (b < 2 powr of_int (f32_exponent a) \<and> - 126 < f32_exponent a)"
proof (cases "f32_exponent a \<le> f32_exponent b")
  case True
  let ?d = "f32_exponent b - f32_exponent a"
  have "f32_ulp b = 2 powr (of_int (f32_exponent a - 23) + of_int ?d)"
    unfolding f32_ulp_def by (rule arg_cong [where f = "\<lambda>y. 2 powr y"]) simp
  then have "f32_ulp b = f32_ulp a * 2 powr of_int ?d"
    by (simp only: powr_add f32_ulp_def)
  also have "(2::real) powr of_int ?d = of_int (2 ^ nat ?d)"
    using True by (intro pow2_int) simp
  finally have ub: "f32_ulp b = f32_ulp a * of_int (2 ^ nat ?d)" .
  define m where "m = round_ties_even (b / f32_ulp b)"
  have "b = of_int m * f32_ulp b"
    using assms(3) by (simp add: round_mag_def m_def)
  also have "\<dots> = of_int (m * 2 ^ nat ?d) * f32_ulp a"
    unfolding ub by simp
  finally show ?thesis by blast
next
  case False
  then have lt: "f32_exponent b + 1 \<le> f32_exponent a" by simp
  have "b < 2 powr of_int (f32_exponent b + 1)"
    by (rule below_next_binade [OF assms(2)])
  also have "\<dots> \<le> 2 powr of_int (f32_exponent a)"
    using lt by simp
  finally have "b < 2 powr of_int (f32_exponent a)" .
  moreover have "- 126 < f32_exponent a"
    using lt exponent_ge [of b] by simp
  ultimately show ?thesis by simp
qed

lemma f32_mag: "f32 c \<Longrightarrow> c \<noteq> 0 \<Longrightarrow> round_mag \<bar>c\<bar> = \<bar>c\<bar>"
proof -
  assume c: "f32 c" "c \<noteq> 0"
  then have "sgn c * round_mag \<bar>c\<bar> = c" by (simp add: f32_def fround_def)
  then have "sgn c * (sgn c * round_mag \<bar>c\<bar>) = sgn c * c" by simp
  with c(2) show ?thesis
    by (simp add: sgn_real_def split: if_splits)
qed

lemma mag_nearest:
  assumes "0 < a" and "f32 c"
  shows "\<bar>round_mag a - a\<bar> \<le> \<bar>c - a\<bar>"
proof (cases "c = 0")
  case True
  with mag_nearest_grid [OF assms(1), of 0] show ?thesis by simp
next
  case False
  then have pos: "0 < \<bar>c\<bar>" by simp
  from fixed_mag_grid [OF assms(1) pos f32_mag [OF assms(2) False]]
  show ?thesis
  proof
    assume "\<exists>k::int. \<bar>c\<bar> = of_int k * f32_ulp a"
    then obtain k :: int where k: "\<bar>c\<bar> = of_int k * f32_ulp a" by blast
    have "c = of_int k * f32_ulp a \<or> c = of_int (- k) * f32_ulp a"
      using k by (cases "0 \<le> c") simp_all
    then show ?thesis
      using mag_nearest_grid [OF assms(1), of k] mag_nearest_grid [OF assms(1), of "- k"]
      by auto
  next
    assume h: "\<bar>c\<bar> < 2 powr of_int (f32_exponent a) \<and> - 126 < f32_exponent a"
    then have below: "2 powr of_int (f32_exponent a) \<le> a"
      using normal_binade(2) [OF assms(1)] by simp
    have "\<bar>round_mag a - a\<bar> \<le> \<bar>of_int (2 ^ 23) * f32_ulp a - a\<bar>"
      by (rule mag_nearest_grid [OF assms(1)])
    also have "of_int (2 ^ 23) * f32_ulp a = 2 powr of_int (f32_exponent a)"
      by (simp add: ulp_scale(2))
    finally show ?thesis using h below by linarith
  qed
qed

lemma fround_nearest:
  assumes "f32 c"
  shows "\<bar>fround x - x\<bar> \<le> \<bar>c - x\<bar>"
proof -
  consider "x = 0" | "0 < x" | "x < 0" by linarith
  then show ?thesis
  proof cases
    case 1
    then show ?thesis by (simp add: fround_0)
  next
    case 2
    with mag_nearest [OF 2 assms] show ?thesis by (simp add: fround_pos)
  next
    case 3
    then have p: "0 < - x" by simp
    from assms have "f32 (- c)" by (simp add: f32_minus)
    from mag_nearest [OF p this] have "\<bar>fround (- x) - (- x)\<bar> \<le> \<bar>- c - (- x)\<bar>"
      using p by (simp add: fround_pos)
    then show ?thesis by (simp add: fround_minus abs_minus_commute)
  qed
qed

lemma fround_error: "\<bar>fround x - x\<bar> \<le> \<bar>x\<bar> / 2 ^ 24 + 1 / 2 ^ 150"
proof -
  consider "x = 0" | "0 < x" | "x < 0" by linarith
  then show ?thesis
  proof cases
    case 1
    then show ?thesis by (simp add: fround_0)
  next
    case 2
    with mag_half_ulp [OF 2] show ?thesis by (simp add: fround_pos)
  next
    case 3
    then have p: "0 < - x" by simp
    from mag_half_ulp [OF p] have "\<bar>fround (- x) - (- x)\<bar> \<le> - x / 2 ^ 24 + 1 / 2 ^ 150"
      using p by (simp add: fround_pos)
    then show ?thesis using 3 by (simp add: fround_minus abs_minus_commute)
  qed
qed


text \<open>A blend between a stored value and a target, stored again.\<close>

lemma fround_between:
  assumes "f32 c" and "f32 g" and "c \<le> v" and "v \<le> g"
  shows "c \<le> fround v \<and> fround v \<le> g"
  using fround_nearest [OF assms(1), of v] fround_nearest [OF assms(2), of v] assms(3,4)
  by linarith


lemma fround_eval:
  assumes "0 < x" and "- 126 \<le> e" and "2 powr of_int e \<le> x" and "x < 2 powr of_int (e + 1)"
    and "of_int k - 1/2 < x / 2 powr of_int (e - 23)"
    and "x / 2 powr of_int (e - 23) < of_int k + 1/2"
  shows "fround x = of_int k * 2 powr of_int (e - 23)"
proof -
  from exponent_eq [OF assms(1-4)] have u: "f32_ulp x = 2 powr of_int (e - 23)"
    by (simp add: f32_ulp_def)
  from rte_eval [OF assms(5,6)] show ?thesis
    using assms(1) by (simp add: fround_pos round_mag_def u)
qed

section \<open>The stored blend\<close>

text \<open>
  The blend of a stored value towards a target with a factor between 0 and 1,
  stored again: it does not move away from the target, it moves by a definite amount
  as long as it moves at all, so it comes to rest after finitely many steps, and where
  it rests the step \<open>a * |c - g|\<close> is below the rounding error of the store.
\<close>

lemma lerp_diff: "lerp c g a - g = (1 - a) * (c - g)"
  by (simp add: lerp_def algebra_simps)

lemma lerp_move: "lerp c g a - c = a * (g - c)"
  by (simp add: lerp_def)

lemma lerp_range:
  assumes "0 \<le> a" and "a \<le> 1"
  shows "min c g \<le> lerp c g a" and "lerp c g a \<le> max c g"
proof -
  have up: "a * (g - c) \<le> g - c" if "c \<le> g"
    using mult_right_mono [of a 1 "g - c"] assms that by simp
  have dn: "g - c \<le> a * (g - c)" if "g \<le> c"
    using mult_right_mono_neg [of a 1 "g - c"] assms that by simp
  have nn: "0 \<le> a * (g - c)" if "c \<le> g"
    using assms that by simp
  have np: "a * (g - c) \<le> 0" if "g \<le> c"
    using assms that by (simp add: mult_nonneg_nonpos)
  show "min c g \<le> lerp c g a"
  proof (cases "c \<le> g")
    case True
    from nn [OF this] have "c \<le> c + a * (g - c)" by linarith
    with True show ?thesis by (simp add: lerp_def min_def)
  next
    case False
    then have "g \<le> c" by simp
    from dn [OF this] have "g \<le> c + a * (g - c)" by linarith
    with False show ?thesis by (simp add: lerp_def min_def)
  qed
  show "lerp c g a \<le> max c g"
  proof (cases "c \<le> g")
    case True
    from up [OF this] have "c + a * (g - c) \<le> g" by linarith
    with True show ?thesis by (simp add: lerp_def max_def)
  next
    case False
    then have "g \<le> c" by simp
    from np [OF this] have "c + a * (g - c) \<le> c" by linarith
    with False show ?thesis by (simp add: lerp_def max_def)
  qed
qed










lemma blend_move:
  assumes "0 \<le> a" and "a \<le> 1"
  shows "\<bar>stored_blend a g c - c\<bar> \<le> a * \<bar>g - c\<bar> + max \<bar>c\<bar> \<bar>g\<bar> / 2 ^ 24 + 1 / 2 ^ 150"
proof -
  let ?v = "lerp c g a"
  have "\<bar>?v - c\<bar> = a * \<bar>g - c\<bar>"
    unfolding lerp_move using assms(1) by (simp add: abs_mult)
  moreover have "\<bar>?v\<bar> \<le> max \<bar>c\<bar> \<bar>g\<bar>"
    using lerp_range [OF assms, of c g] by (auto simp add: min_def max_def split: if_splits)
  then have "\<bar>?v\<bar> / 2 ^ 24 \<le> max \<bar>c\<bar> \<bar>g\<bar> / 2 ^ 24"
    by (simp add: divide_right_mono)
  moreover note fround_error [of ?v]
  ultimately show ?thesis
    unfolding stored_blend_def by linarith
qed



text \<open>
  The largest float32 is \<open>(2^24 - 1) * 2^104\<close>. A blend between two values of at most
  a float32 magnitude \<open>m\<close> is stored within that magnitude, so between values of the
  float32 range the store does not overflow.
\<close>

lemma f32_largest: "f32 (16777215 * 2 ^ 104)"
  unfolding f32_def
  using fround_eval [of "16777215 * 2 ^ 104" 127 16777215] by simp

lemma stored_in_range:
  assumes "0 \<le> a" and "a \<le> 1" and "f32 m" and "\<bar>c\<bar> \<le> m" and "\<bar>g\<bar> \<le> m"
  shows "\<bar>stored_blend a g c\<bar> \<le> m"
proof -
  have "- m \<le> lerp c g a" "lerp c g a \<le> m"
    using lerp_range [OF assms(1,2), of c g] assms(4,5)
    by (auto simp add: min_def max_def split: if_splits)
  from fround_between [OF _ assms(3) this] assms(3) show ?thesis
    unfolding stored_blend_def by (simp add: f32_minus abs_le_iff)
qed

section \<open>The animation loops, entry by entry\<close>

lemma fold_steps:
  assumes len: "\<And>i xs. length (step i xs) = length xs"
    and upd: "\<And>i xs j. j < length xs \<Longrightarrow>
        step i xs ! j = (if j div 3 = i then g j (xs ! j) else xs ! j)"
  shows "length (fold step [0..<n] xs) = length xs \<and>
     (\<forall>j<length xs. fold step [0..<n] xs ! j = (if j div 3 < n then g j (xs ! j) else xs ! j))"
proof (induction n)
  case 0
  then show ?case by simp
next
  case (Suc n)
  have "fold step [0..<Suc n] xs = step n (fold step [0..<n] xs)" by simp
  with Suc len upd show ?case by (auto simp add: less_Suc_eq)
qed

lemma triple_index: "j div 3 = i \<longleftrightarrow> j = i * 3 \<or> j = i * 3 + 1 \<or> j = i * 3 + 2" for i j :: nat
  by presburger

lemma triple_div: "Suc (i * 3) div 3 = i" "Suc (Suc (i * 3)) div 3 = i"
  by presburger+

lemma triple_mod: "(i * 3) mod 3 = 0" "Suc (i * 3) mod 3 = 1" "Suc (Suc (i * 3)) mod 3 = 2"
  by presburger+

lemma needle_step_length: "length (needle_step mode t d i xs) = length xs"
  by (simp add: needle_step_def Let_def)

lemma needle_step_nth:
  "j < length xs \<Longrightarrow> needle_step mode t d i xs ! j =
     (if j div 3 = i
      then stored_blend lerpSpeed (target_of mode d ! j + needle_noise mode t (j div 3)) (xs ! j)
      else xs ! j)"
  unfolding triple_index
  by (auto simp add: needle_step_def Let_def nth_list_update target_of_def triple_div
      stored_blend_def)

lemma updateNeedles_nth:
  assumes "wf_group particleCount d" and "j < 3 * particleCount"
  shows "current (updateNeedles mode t d) ! j =
     stored_blend lerpSpeed (target_of mode d ! j + needle_noise mode t (j div 3)) (current d ! j)"
proof -
  from assms have j: "j < length (current d)" and d: "j div 3 < particleCount"
    by (auto simp add: wf_group_def)
  from fold_steps [of "needle_step mode t d"
      "\<lambda>j. stored_blend lerpSpeed (target_of mode d ! j + needle_noise mode t (j div 3))"
      particleCount "current d", OF needle_step_length needle_step_nth] j d
  show ?thesis by (simp add: updateNeedles_def)
qed

lemma updateNeedles_wf:
  "wf_group particleCount d \<Longrightarrow> wf_group particleCount (updateNeedles mode t d)"
  "chaos (updateNeedles mode t d) = chaos d"
  "formed (updateNeedles mode t d) = formed d"
  using fold_steps [of "needle_step mode t d"
      "\<lambda>j. stored_blend lerpSpeed (target_of mode d ! j + needle_noise mode t (j div 3))"
      particleCount "current d", OF needle_step_length needle_step_nth]
  by (simp_all add: updateNeedles_def wf_group_def)

lemma trunk_step_length: "length (trunk_step mode d i xs) = length xs"
  by (simp add: trunk_step_def Let_def)

lemma trunk_step_nth:
  "j < length xs \<Longrightarrow> trunk_step mode d i xs ! j =
     (if j div 3 = i then stored_blend lerpSpeed (trunk_target mode d j) (xs ! j) else xs ! j)"
  unfolding triple_index
  by (auto simp add: trunk_step_def Let_def nth_list_update trunk_target_def triple_mod
      stored_blend_def)

lemma updateTrunk_nth:
  assumes "wf_trunk d" and "j < 3 * trunkCount"
  shows "trunk_current (updateTrunk mode d) ! j =
     stored_blend lerpSpeed (trunk_target mode d j) (trunk_current d ! j)"
proof -
  from assms have j: "j < length (trunk_current d)" and d: "j div 3 < trunkCount"
    by (auto simp add: wf_trunk_def)
  from fold_steps [of "trunk_step mode d" "\<lambda>j. stored_blend lerpSpeed (trunk_target mode d j)"
      trunkCount "trunk_current d", OF trunk_step_length trunk_step_nth] j d
  show ?thesis by (simp add: updateTrunk_def)
qed

lemma updateTrunk_wf:
  "wf_trunk d \<Longrightarrow> wf_trunk (updateTrunk mode d)"
  "trunk_formed (updateTrunk mode d) = trunk_formed d"
  "trunk_target mode (updateTrunk mode' d) j = trunk_target mode d j"
  using fold_steps [of "trunk_step mode d" "\<lambda>j. stored_blend lerpSpeed (trunk_target mode d j)"
      trunkCount "trunk_current d", OF trunk_step_length trunk_step_nth]
  by (simp_all add: updateTrunk_def wf_trunk_def trunk_target_def)

lemma dust_step_length: "length (dust_step mode t d i xs) = length xs"
  by (simp add: dust_step_def Let_def split: prod.splits)

lemma dust_step_nth:
  "j < length xs \<Longrightarrow> dust_step mode t d i xs ! j =
     (if j div 3 = i then stored_blend 0.02 (dust_target_at mode t d j) (xs ! j) else xs ! j)"
  unfolding triple_index
  by (auto simp add: dust_step_def Let_def nth_list_update dust_target_at_def triple_mod
      triple_div stored_blend_def split: prod.splits)

lemma updateDust_nth:
  assumes "wf_group dustCount d" and "j < 3 * dustCount"
  shows "current (updateDust mode t d) ! j =
     stored_blend 0.02 (dust_target_at mode t d j) (current d ! j)"
proof -
  from assms have j: "j < length (current d)" and d: "j div 3 < dustCount"
    by (auto simp add: wf_group_def)
  from fold_steps [of "dust_step mode t d" "\<lambda>j. stored_blend 0.02 (dust_target_at mode t d j)"
      dustCount "current d", OF dust_step_length dust_step_nth] j d
  show ?thesis by (simp add: updateDust_def)
qed

lemma updateDust_wf:
  "wf_group dustCount d \<Longrightarrow> wf_group dustCount (updateDust mode t d)"
  "chaos (updateDust mode t d) = chaos d"
  "formed (updateDust mode t d) = formed d"
  using fold_steps [of "dust_step mode t d" "\<lambda>j. stored_blend 0.02 (dust_target_at mode t d j)"
      dustCount "current d", OF dust_step_length dust_step_nth]
  by (simp_all add: updateDust_def wf_group_def)

lemma dust_target_at_chaos: "dust_target_at CHAOS t d j = chaos d ! j"
proof -
  have "j mod 3 = 0 \<or> j mod 3 = 1 \<or> j mod 3 = 2" by presburger
  moreover have "j mod 3 = 0 \<Longrightarrow> j div 3 * 3 = j" by presburger
  moreover have "j mod 3 = 1 \<Longrightarrow> j div 3 * 3 + 1 = j" by presburger
  moreover have "j mod 3 = 2 \<Longrightarrow> j div 3 * 3 + 2 = j" by presburger
  ultimately show ?thesis
    by (auto simp add: dust_target_at_def dust_target_def)
qed

lemma dust_target_at_fixed:
  "chaos d' = chaos d \<Longrightarrow> formed d' = formed d \<Longrightarrow>
   dust_target_at mode t d' j = dust_target_at mode t d j"
  by (simp add: dust_target_at_def dust_target_def)

lemma animate_step_length: "length (animate_step mode d cfg i xs) = length xs"
  by (simp add: animate_step_def Let_def)

lemma animate_step_nth:
  "j < length xs \<Longrightarrow> animate_step mode d cfg i xs ! j =
     (if j div 3 = i then stored_blend (weight cfg) (target_of mode d ! j) (xs ! j) else xs ! j)"
  unfolding triple_index
  by (auto simp add: animate_step_def Let_def nth_list_update target_of_def stored_blend_def)

lemma animateGroup_nth:
  assumes "wf_group (count cfg) d" and "j < 3 * count cfg"
  shows "current (animateGroup mode d cfg) ! j =
     stored_blend (weight cfg) (target_of mode d ! j) (current d ! j)"
proof -
  from assms have j: "j < length (current d)" and d: "j div 3 < count cfg"
    by (auto simp add: wf_group_def)
  from fold_steps [of "animate_step mode d cfg"
      "\<lambda>j. stored_blend (weight cfg) (target_of mode d ! j)"
      "count cfg" "current d", OF animate_step_length animate_step_nth] j d
  show ?thesis by (simp add: animateGroup_def)
qed

lemma animateGroup_wf:
  "wf_group (count cfg) d \<Longrightarrow> wf_group (count cfg) (animateGroup mode d cfg)"
  "chaos (animateGroup mode d cfg) = chaos d"
  "formed (animateGroup mode d cfg) = formed d"
  using fold_steps [of "animate_step mode d cfg"
      "\<lambda>j. stored_blend (weight cfg) (target_of mode d ! j)"
      "count cfg" "current d", OF animate_step_length animate_step_nth]
  by (simp_all add: animateGroup_def wf_group_def)

lemma target_of_update:
  "target_of mode (updateNeedles m t d) = target_of mode d"
  "target_of mode (updateDust m t d) = target_of mode d"
  "target_of mode (animateGroup m d cfg) = target_of mode d"
  by (simp_all add: target_of_def updateNeedles_wf updateDust_wf animateGroup_wf)

subsection \<open>Repeated ticks\<close>


lemma needles_ticks_wf:
  "wf_group particleCount d \<Longrightarrow> wf_group particleCount (needles_ticks mode d ts)"
  by (induction ts arbitrary: d) (simp_all add: updateNeedles_wf)

lemma needles_ticks_fixed:
  "chaos (needles_ticks mode d ts) = chaos d" "formed (needles_ticks mode d ts) = formed d"
  by (induction ts arbitrary: d) (simp_all add: updateNeedles_wf)

lemma needles_ticks_target: "target_of m (needles_ticks mode d ts) = target_of m d"
  by (simp add: target_of_def needles_ticks_fixed)



lemma trunk_ticks_wf: "wf_trunk d \<Longrightarrow> wf_trunk (trunk_ticks mode d n)"
  by (induction n arbitrary: d) (simp_all add: updateTrunk_wf)

lemma trunk_ticks_target: "trunk_target m (trunk_ticks mode d n) j = trunk_target m d j"
  by (induction n arbitrary: d) (simp_all add: updateTrunk_wf)


lemma dust_ticks_wf: "wf_group dustCount d \<Longrightarrow> wf_group dustCount (dust_ticks mode d ts)"
  by (induction ts arbitrary: d) (simp_all add: updateDust_wf)

lemma dust_ticks_fixed:
  "chaos (dust_ticks mode d ts) = chaos d" "formed (dust_ticks mode d ts) = formed d"
  by (induction ts arbitrary: d) (simp_all add: updateDust_wf)


lemma animate_ticks_wf:
  "wf_group (count cfg) d \<Longrightarrow> wf_group (count cfg) (animate_ticks mode d cfg n)"
  by (induction n arbitrary: d) (simp_all add: animateGroup_wf)

lemma animate_ticks_target: "target_of m (animate_ticks mode d cfg n) = target_of m d"
  by (induction n arbitrary: d) (simp_all add: target_of_update)


section \<open>The sample buffers\<close>

lemma sample_group_wf: "wf_group n (sample_group n c f cur)"
  by (simp add: wf_group_def sample_group_def)

lemma sample_group_nth:
  "j < 3 * n \<Longrightarrow> chaos (sample_group n c f cur) ! j = c"
  "j < 3 * n \<Longrightarrow> formed (sample_group n c f cur) ! j = f"
  "j < 3 * n \<Longrightarrow> current (sample_group n c f cur) ! j = cur"
  by (simp_all add: sample_group_def)





lemma stored_rest: "stored_blend a g g = fround g"
  by (simp add: stored_blend_def lerp_def)


lemma fround_27_4: "fround (27 / 4) = 27 / 4"
  using fround_eval [of "27 / 4" 2 14155776] by (simp add: powr_neg_numeral)


lemma stored_dust_spun2: "stored_blend 0.02 (- (27 / 4)) (27 / 4) = 13589545 / 2097152"
proof -
  have v: "lerp (27 / 4) (- (27 / 4)) 0.02 = 162 / 25" by (simp add: lerp_def)
  show ?thesis
    unfolding stored_blend_def v
    using fround_eval [of "162 / 25" 2 13589545] by (simp add: powr_neg_numeral)
qed


lemma stored_ball: "stored_blend (weight balls_config) 1 0 = 13421773 / 268435456"
proof -
  have v: "lerp 0 1 (weight balls_config) = 1 / 20"
    by (simp add: lerp_def balls_config_def)
  show ?thesis
    unfolding stored_blend_def v
    using fround_eval [of "1 / 20" "-5" 13421773] by (simp add: powr_neg_numeral)
qed

lemma stored_needle_formed: "stored_blend lerpSpeed 0 1 = 4068475 / 4194304"
proof -
  have v: "lerp 1 0 lerpSpeed = 97 / 100" by (simp add: lerp_def lerpSpeed_def)
  show ?thesis
    unfolding stored_blend_def v
    using fround_eval [of "97 / 100" "-1" 16273900]
    by (simp add: powr_neg_numeral powr_minus_divide)
qed

lemma stored_needle_chaos: "stored_blend lerpSpeed (1 + 1 / 20) 1 = 8401191 / 8388608"
proof -
  have v: "lerp 1 (1 + 1 / 20) lerpSpeed = 2003 / 2000" by (simp add: lerp_def lerpSpeed_def)
  show ?thesis
    unfolding stored_blend_def v
    using fround_eval [of "2003 / 2000" 0 8401191] by (simp add: powr_neg_numeral)
qed

lemma stored_needle_flip:
  "stored_blend lerpSpeed (1 + 1 / 20) (4068475 / 4194304) = 16314165 / 16777216"
proof -
  have v: "lerp (4068475 / 4194304) (1 + 1 / 20) lerpSpeed = 2039270663 / 2097152000"
    by (simp add: lerp_def lerpSpeed_def)
  show ?thesis
    unfolding stored_blend_def v
    using fround_eval [of "2039270663 / 2097152000" "-1" 16314165]
    by (simp add: powr_neg_numeral powr_minus_divide)
qed

lemma dust_spun_target:
  "dust_target_at FORMED 0 d 0 = formed d ! 0"
  "dust_target_at FORMED (2 * pi) d 0 = - (formed d ! 0)"
  by (simp_all add: dust_target_at_def dust_target_def Let_def)

lemma needle_tick_sample:
  "current (updateNeedles FORMED t (sample_group particleCount 1 0 1)) ! 0 = 4068475 / 4194304"
proof -
  have n: "(0::nat) < 3 * particleCount" by (simp add: particleCount_def)
  have "current (updateNeedles FORMED t (sample_group particleCount 1 0 1)) ! 0 =
      stored_blend lerpSpeed 0 1"
    unfolding updateNeedles_nth [OF sample_group_wf n]
    using n by (simp add: sample_group_nth target_of_def needle_noise_def)
  then show ?thesis by (simp only: stored_needle_formed)
qed

section \<open>Repeated ticks in one mode\<close>

lemma lerpSpeed_range: "0 \<le> lerpSpeed" "lerpSpeed \<le> 1"
  by (simp_all add: lerpSpeed_def)

lemma weight_range:
  "cfg \<in> {gifts_config, balls_config, lights_config} \<Longrightarrow> 0 \<le> weight cfg \<and> weight cfg \<le> 1"
  by (auto simp add: gifts_config_def balls_config_def lights_config_def)









section \<open>A tick after a change of mode\<close>

lemma needle_noise_bound: "\<bar>needle_noise mode t i\<bar> \<le> 0.05"
proof -
  have "\<bar>sin (t + real i)\<bar> \<le> 1" by simp
  then show ?thesis by (simp add: needle_noise_def abs_mult)
qed

lemma blend_move_noisy:
  assumes a: "0 \<le> a" "a \<le> 1" and n: "\<bar>n\<bar> \<le> b"
  shows "\<bar>stored_blend a (g + n) c - c\<bar> \<le>
           a * \<bar>g - c\<bar> + a * b + max \<bar>c\<bar> (\<bar>g\<bar> + b) / 2 ^ 24 + 1 / 2 ^ 150"
proof -
  have 1: "\<bar>(g + n) - c\<bar> \<le> \<bar>g - c\<bar> + b" using n by linarith
  have 2: "max \<bar>c\<bar> \<bar>g + n\<bar> \<le> max \<bar>c\<bar> (\<bar>g\<bar> + b)" using n by linarith
  have 3: "a * \<bar>(g + n) - c\<bar> \<le> a * \<bar>g - c\<bar> + a * b"
    using mult_left_mono [OF 1 a(1)] by (simp add: algebra_simps)
  have 4: "max \<bar>c\<bar> \<bar>g + n\<bar> / 2 ^ 24 \<le> max \<bar>c\<bar> (\<bar>g\<bar> + b) / 2 ^ 24"
    using 2 by (simp add: divide_right_mono)
  from blend_move [OF a, of "g + n" c] 3 4 show ?thesis by linarith
qed

text \<open>
  Claim C6 fails for the gold dust flipped to \<open>FORMED\<close> mode: a dust particle whose
  scattered and formed position are both 27/4 on the x axis rests there through a
  \<open>CHAOS\<close> tick, and the first \<open>FORMED\<close> tick at clock \<open>2\<pi>\<close> moves it by
  566231/2097152 (about 0.27), where \<open>\<alpha>\<close> times its distance to the formed position is
  0; the dust has no noise term to account for it. The claim also fails by the rounding
  of the store: a ball at 0 whose scattered position is 1 is stored at
  13421773/268435456 by the first \<open>CHAOS\<close> tick, which is more than
  \<open>\<alpha> * |target - current|\<close> = 1/20.
\<close>

theorem flip_displacement_counterexample:
  "0.02 * \<bar>formed (sample_group dustCount (27 / 4) (27 / 4) (27 / 4)) ! 0
        - current (dust_ticks CHAOS (sample_group dustCount (27 / 4) (27 / 4) (27 / 4)) [0]) ! 0\<bar> = 0 \<and>
   \<bar>current (updateDust FORMED (2 * pi)
        (dust_ticks CHAOS (sample_group dustCount (27 / 4) (27 / 4) (27 / 4)) [0])) ! 0
      - current (dust_ticks CHAOS (sample_group dustCount (27 / 4) (27 / 4) (27 / 4)) [0]) ! 0\<bar>
      = 566231 / 2097152 \<and>
   weight balls_config * \<bar>target_of CHAOS (sample_group (count balls_config) 1 0 0) ! 0
        - current (sample_group (count balls_config) 1 0 0) ! 0\<bar> = 1 / 20 \<and>
   \<bar>current (animateGroup CHAOS (animate_ticks FORMED (sample_group (count balls_config) 1 0 0) balls_config 0)
        balls_config) ! 0
      - current (animate_ticks FORMED (sample_group (count balls_config) 1 0 0) balls_config 0) ! 0\<bar>
      = 13421773 / 268435456"
proof -
  let ?D = "sample_group dustCount (27 / 4) (27 / 4) (27 / 4)"
  let ?B = "sample_group (count balls_config) 1 0 0"
  have j: "0 < 3 * dustCount" by (simp add: dustCount_def)
  have m: "(0::nat) < 3 * count balls_config" by (simp add: balls_config_def)
  have wf1: "wf_group dustCount (updateDust CHAOS 0 ?D)"
    by (rule updateDust_wf) (rule sample_group_wf)
  have c1: "current (updateDust CHAOS 0 ?D) ! 0 = 27 / 4"
    unfolding updateDust_nth [OF sample_group_wf j] dust_target_at_chaos
    using j by (simp add: sample_group_nth stored_rest fround_27_4)
  have f1: "formed (updateDust CHAOS 0 ?D) ! 0 = 27 / 4"
    using dust_ticks_fixed [of CHAOS ?D "[0]"] j by (simp add: sample_group_nth)
  have c2: "current (updateDust FORMED (2 * pi) (updateDust CHAOS 0 ?D)) ! 0 = 13589545 / 2097152"
    unfolding updateDust_nth [OF wf1 j] dust_spun_target f1 c1
    by (rule stored_dust_spun2)
  have b1: "current (animateGroup CHAOS ?B balls_config) ! 0 = 13421773 / 268435456"
    unfolding animateGroup_nth [OF sample_group_wf m]
    using m by (simp add: sample_group_nth target_of_def stored_ball)
  have w: "weight balls_config = 1 / 20" by (simp add: balls_config_def)
  show ?thesis
    using j m by (simp add: c1 c2 b1 w sample_group_nth target_of_def)
qed

text \<open>
  Claim C6, amended. After any number of ticks in one mode, a tick in another mode
  moves a buffer entry by at most \<open>\<alpha>\<close> times its distance to the new target, plus
  \<open>\<alpha>\<close> times the noise bound 0.05 for the needles, plus the rounding error of the
  store, at most \<open>max(|current|, |target|) / 2^24 + 2^-150\<close> (with the noise bound added
  to \<open>|target|\<close> for the needles). This holds for needles, trunk, gifts, balls and
  lights flipped either way and for the gold dust flipped to \<open>CHAOS\<close>.
\<close>

theorem flip_displacement:
  "(wf_group particleCount nd \<and> j < 3 * particleCount \<longrightarrow>
      \<bar>current (updateNeedles m1 t (needles_ticks m0 nd ts)) ! j -
         current (needles_ticks m0 nd ts) ! j\<bar>
        \<le> lerpSpeed * \<bar>target_of m1 nd ! j - current (needles_ticks m0 nd ts) ! j\<bar>
            + lerpSpeed * 0.05
            + max \<bar>current (needles_ticks m0 nd ts) ! j\<bar> (\<bar>target_of m1 nd ! j\<bar> + 0.05) / 2 ^ 24
            + 1 / 2 ^ 150) \<and>
   (wf_trunk td \<and> j < 3 * trunkCount \<longrightarrow>
      \<bar>trunk_current (updateTrunk m1 (trunk_ticks m0 td n)) ! j -
         trunk_current (trunk_ticks m0 td n) ! j\<bar>
        \<le> lerpSpeed * \<bar>trunk_target m1 td j - trunk_current (trunk_ticks m0 td n) ! j\<bar>
            + max \<bar>trunk_current (trunk_ticks m0 td n) ! j\<bar> \<bar>trunk_target m1 td j\<bar> / 2 ^ 24
            + 1 / 2 ^ 150) \<and>
   (wf_group dustCount dd \<and> j < 3 * dustCount \<longrightarrow>
      \<bar>current (updateDust CHAOS t (dust_ticks m0 dd ts)) ! j - current (dust_ticks m0 dd ts) ! j\<bar>
        \<le> 0.02 * \<bar>chaos dd ! j - current (dust_ticks m0 dd ts) ! j\<bar>
            + max \<bar>current (dust_ticks m0 dd ts) ! j\<bar> \<bar>chaos dd ! j\<bar> / 2 ^ 24
            + 1 / 2 ^ 150) \<and>
   (cfg \<in> {gifts_config, balls_config, lights_config} \<and> wf_group (count cfg) gd \<and>
    j < 3 * count cfg \<longrightarrow>
      \<bar>current (animateGroup m1 (animate_ticks m0 gd cfg n) cfg) ! j -
         current (animate_ticks m0 gd cfg n) ! j\<bar>
        \<le> weight cfg * \<bar>target_of m1 gd ! j - current (animate_ticks m0 gd cfg n) ! j\<bar>
            + max \<bar>current (animate_ticks m0 gd cfg n) ! j\<bar> \<bar>target_of m1 gd ! j\<bar> / 2 ^ 24
            + 1 / 2 ^ 150)"
proof (intro conjI impI)
  assume "wf_group particleCount nd \<and> j < 3 * particleCount"
  then have a: "wf_group particleCount (needles_ticks m0 nd ts)" and b: "j < 3 * particleCount"
    by (simp_all add: needles_ticks_wf)
  show "\<bar>current (updateNeedles m1 t (needles_ticks m0 nd ts)) ! j -
         current (needles_ticks m0 nd ts) ! j\<bar>
        \<le> lerpSpeed * \<bar>target_of m1 nd ! j - current (needles_ticks m0 nd ts) ! j\<bar>
            + lerpSpeed * 0.05
            + max \<bar>current (needles_ticks m0 nd ts) ! j\<bar> (\<bar>target_of m1 nd ! j\<bar> + 0.05) / 2 ^ 24
            + 1 / 2 ^ 150"
    unfolding updateNeedles_nth [OF a b] needles_ticks_target
    by (rule blend_move_noisy [OF lerpSpeed_range needle_noise_bound])
next
  assume "wf_trunk td \<and> j < 3 * trunkCount"
  then have a: "wf_trunk (trunk_ticks m0 td n)" and b: "j < 3 * trunkCount"
    by (simp_all add: trunk_ticks_wf)
  show "\<bar>trunk_current (updateTrunk m1 (trunk_ticks m0 td n)) ! j -
         trunk_current (trunk_ticks m0 td n) ! j\<bar>
        \<le> lerpSpeed * \<bar>trunk_target m1 td j - trunk_current (trunk_ticks m0 td n) ! j\<bar>
            + max \<bar>trunk_current (trunk_ticks m0 td n) ! j\<bar> \<bar>trunk_target m1 td j\<bar> / 2 ^ 24
            + 1 / 2 ^ 150"
    unfolding updateTrunk_nth [OF a b] trunk_ticks_target
    by (rule blend_move [OF lerpSpeed_range])
next
  assume "wf_group dustCount dd \<and> j < 3 * dustCount"
  then have a: "wf_group dustCount (dust_ticks m0 dd ts)" and b: "j < 3 * dustCount"
    by (simp_all add: dust_ticks_wf)
  have c: "dust_target_at CHAOS t (dust_ticks m0 dd ts) j = chaos dd ! j"
    unfolding dust_target_at_chaos by (simp add: dust_ticks_fixed)
  have r: "0 \<le> (0.02::real)" "(0.02::real) \<le> 1" by simp_all
  show "\<bar>current (updateDust CHAOS t (dust_ticks m0 dd ts)) ! j - current (dust_ticks m0 dd ts) ! j\<bar>
        \<le> 0.02 * \<bar>chaos dd ! j - current (dust_ticks m0 dd ts) ! j\<bar>
            + max \<bar>current (dust_ticks m0 dd ts) ! j\<bar> \<bar>chaos dd ! j\<bar> / 2 ^ 24
            + 1 / 2 ^ 150"
    unfolding updateDust_nth [OF a b] c
    by (rule blend_move [OF r])
next
  assume h: "cfg \<in> {gifts_config, balls_config, lights_config} \<and> wf_group (count cfg) gd \<and>
    j < 3 * count cfg"
  then have a: "wf_group (count cfg) (animate_ticks m0 gd cfg n)" and b: "j < 3 * count cfg"
    by (simp_all add: animate_ticks_wf)
  from h weight_range [of cfg] have w: "0 \<le> weight cfg" "weight cfg \<le> 1" by simp_all
  show "\<bar>current (animateGroup m1 (animate_ticks m0 gd cfg n) cfg) ! j -
         current (animate_ticks m0 gd cfg n) ! j\<bar>
        \<le> weight cfg * \<bar>target_of m1 gd ! j - current (animate_ticks m0 gd cfg n) ! j\<bar>
            + max \<bar>current (animate_ticks m0 gd cfg n) ! j\<bar> \<bar>target_of m1 gd ! j\<bar> / 2 ^ 24
            + 1 / 2 ^ 150"
    unfolding animateGroup_nth [OF a b] animate_ticks_target
    by (rule blend_move [OF w])
qed

theorem flip_displacement_witness:
  "wf_group particleCount (sample_group particleCount 1 0 1) \<and> (0::nat) < 3 * particleCount \<and>
   current (needles_ticks FORMED (sample_group particleCount 1 0 1) [0]) ! 0 = 4068475 / 4194304 \<and>
   current (updateNeedles CHAOS (pi / 2) (needles_ticks FORMED (sample_group particleCount 1 0 1) [0])) ! 0
     = 16314165 / 16777216 \<and>
   \<bar>current (updateNeedles CHAOS (pi / 2) (needles_ticks FORMED (sample_group particleCount 1 0 1) [0])) ! 0
      - current (needles_ticks FORMED (sample_group particleCount 1 0 1) [0]) ! 0\<bar>
     \<le> 3 / 100 * \<bar>1 - 4068475 / 4194304\<bar> + 3 / 100 * (5 / 100)
         + max \<bar>4068475 / 4194304\<bar> (\<bar>1\<bar> + 5 / 100) / 2 ^ 24 + 1 / 2 ^ 150"
proof -
  let ?S = "sample_group particleCount 1 0 1"
  have n: "(0::nat) < 3 * particleCount" by (simp add: particleCount_def)
  have v: "current (needles_ticks FORMED ?S [0]) ! 0 = 4068475 / 4194304"
    by (simp add: needle_tick_sample)
  have wf1: "wf_group particleCount (needles_ticks FORMED ?S [0])"
    by (rule needles_ticks_wf) (rule sample_group_wf)
  have "current (updateNeedles CHAOS (pi / 2) (needles_ticks FORMED ?S [0])) ! 0 =
      stored_blend lerpSpeed (1 + 1 / 20) (4068475 / 4194304)"
    unfolding updateNeedles_nth [OF wf1 n] needles_ticks_target v
    using n by (simp add: sample_group_nth target_of_def needle_noise_def)
  then have u: "current (updateNeedles CHAOS (pi / 2) (needles_ticks FORMED ?S [0])) ! 0
     = 16314165 / 16777216"
    by (simp only: stored_needle_flip)
  have t: "target_of CHAOS ?S ! 0 = 1"
    using n by (simp add: target_of_def sample_group_nth)
  have "\<bar>current (updateNeedles CHAOS (pi / 2) (needles_ticks FORMED ?S [0])) ! 0
      - current (needles_ticks FORMED ?S [0]) ! 0\<bar>
     \<le> 3 / 100 * \<bar>1 - 4068475 / 4194304\<bar> + 3 / 100 * (5 / 100)
         + max \<bar>4068475 / 4194304\<bar> (\<bar>1\<bar> + 5 / 100) / 2 ^ 24 + 1 / 2 ^ 150"
    using flip_displacement [where nd = ?S and j = 0 and ts = "[0]" and ?m0.0 = FORMED
        and ?m1.0 = CHAOS and t = "pi / 2"]
      sample_group_wf [of particleCount 1 0 1] n
    unfolding t v lerpSpeed_def
    by simp
  with n v u show ?thesis
    by (simp only: sample_group_wf simp_thms)
qed

section \<open>The noise term\<close>

text \<open>
  Claim C7 fails for the needles in \<open>FORMED\<close> mode: their noise term is zero there,
  also at a clock where a sine of the clock peaks, and a needle resting on its formed
  position stays on it.
\<close>

theorem needle_jitter_counterexample:
  "needle_noise FORMED (pi / 2) 0 = 0 \<and> needle_noise CHAOS (pi / 2) 0 = 1 / 20 \<and>
   current (updateNeedles FORMED (pi / 2) (sample_group particleCount 1 0 0)) ! 0 =
     formed (sample_group particleCount 1 0 0) ! 0"
proof -
  have n: "(0::nat) < 3 * particleCount" by (simp add: particleCount_def)
  have "current (updateNeedles FORMED (pi / 2) (sample_group particleCount 1 0 0)) ! 0 =
     formed (sample_group particleCount 1 0 0) ! 0"
    unfolding updateNeedles_nth [OF sample_group_wf n]
    using n by (simp add: sample_group_nth target_of_def needle_noise_def stored_rest fround_0)
  then show ?thesis by (simp add: needle_noise_def)
qed

text \<open>
  Claim C7, amended. The needle noise is zero in \<open>FORMED\<close> mode and
  \<open>sin(t + i) * 0.05\<close> in \<open>CHAOS\<close> mode, a function of the particle index and the clock
  bounded by 0.05. Trunk, gifts, balls and lights store the rounded blend towards a
  target without a noise term in both modes, and so does the gold dust in \<open>CHAOS\<close>
  mode; the group whose formed target carries a sinusoidal term is the gold dust (a bob
  of amplitude 0.2 on the vertical axis, on a target spun by half the clock).
\<close>

theorem noise_by_group:
  "needle_noise FORMED t i = 0 \<and>
   needle_noise CHAOS t i = sin (t + real i) * 0.05 \<and>
   \<bar>needle_noise mode t i\<bar> \<le> 0.05 \<and>
   (wf_group particleCount nd \<and> j < 3 * particleCount \<longrightarrow>
      current (updateNeedles FORMED t nd) ! j =
        fround (lerp (current nd ! j) (formed nd ! j) lerpSpeed) \<and>
      current (updateNeedles CHAOS t nd) ! j =
        fround (lerp (current nd ! j) (chaos nd ! j + sin (t + real (j div 3)) * 0.05) lerpSpeed)) \<and>
   (wf_trunk td \<and> j < 3 * trunkCount \<longrightarrow>
      trunk_current (updateTrunk mode td) ! j =
        fround (lerp (trunk_current td ! j) (trunk_target mode td j) lerpSpeed)) \<and>
   (wf_group dustCount dd \<and> j < 3 * dustCount \<longrightarrow>
      current (updateDust CHAOS t dd) ! j = fround (lerp (current dd ! j) (chaos dd ! j) 0.02)) \<and>
   dust_target FORMED t dd i =
     (formed dd ! (i * 3) * cos (t * 0.5) - formed dd ! (i * 3 + 2) * sin (t * 0.5),
      formed dd ! (i * 3 + 1) + sin (t + real i) * 0.2,
      formed dd ! (i * 3) * sin (t * 0.5) + formed dd ! (i * 3 + 2) * cos (t * 0.5)) \<and>
   (wf_group (count cfg) gd \<and> j < 3 * count cfg \<longrightarrow>
      current (animateGroup mode gd cfg) ! j =
        fround (lerp (current gd ! j) (target_of mode gd ! j) (weight cfg)))"
proof (intro conjI impI)
  show "needle_noise FORMED t i = 0" by (simp add: needle_noise_def)
  show "needle_noise CHAOS t i = sin (t + real i) * 0.05" by (simp add: needle_noise_def)
  show "\<bar>needle_noise mode t i\<bar> \<le> 0.05" by (rule needle_noise_bound)
  show "dust_target FORMED t dd i =
     (formed dd ! (i * 3) * cos (t * 0.5) - formed dd ! (i * 3 + 2) * sin (t * 0.5),
      formed dd ! (i * 3 + 1) + sin (t + real i) * 0.2,
      formed dd ! (i * 3) * sin (t * 0.5) + formed dd ! (i * 3 + 2) * cos (t * 0.5))"
    by (simp add: dust_target_def Let_def)
next
  assume "wf_group particleCount nd \<and> j < 3 * particleCount"
  then have a: "wf_group particleCount nd" and b: "j < 3 * particleCount" by simp_all
  show "current (updateNeedles FORMED t nd) ! j =
      fround (lerp (current nd ! j) (formed nd ! j) lerpSpeed)"
    unfolding updateNeedles_nth [OF a b] stored_blend_def
    by (simp add: target_of_def needle_noise_def)
  show "current (updateNeedles CHAOS t nd) ! j =
        fround (lerp (current nd ! j) (chaos nd ! j + sin (t + real (j div 3)) * 0.05) lerpSpeed)"
    unfolding updateNeedles_nth [OF a b] stored_blend_def
    by (simp add: target_of_def needle_noise_def)
next
  assume "wf_trunk td \<and> j < 3 * trunkCount"
  then show "trunk_current (updateTrunk mode td) ! j =
        fround (lerp (trunk_current td ! j) (trunk_target mode td j) lerpSpeed)"
    by (simp add: updateTrunk_nth stored_blend_def)
next
  assume "wf_group dustCount dd \<and> j < 3 * dustCount"
  then show "current (updateDust CHAOS t dd) ! j = fround (lerp (current dd ! j) (chaos dd ! j) 0.02)"
    by (simp add: updateDust_nth dust_target_at_chaos stored_blend_def)
next
  assume "wf_group (count cfg) gd \<and> j < 3 * count cfg"
  then show "current (animateGroup mode gd cfg) ! j =
        fround (lerp (current gd ! j) (target_of mode gd ! j) (weight cfg))"
    by (simp add: animateGroup_nth stored_blend_def)
qed

theorem noise_by_group_witness:
  "wf_group particleCount (sample_group particleCount 1 0 1) \<and> (0::nat) < 3 * particleCount \<and>
   current (updateNeedles FORMED (pi / 2) (sample_group particleCount 1 0 1)) ! 0
     = 4068475 / 4194304 \<and>
   current (updateNeedles CHAOS (pi / 2) (sample_group particleCount 1 0 1)) ! 0
     = 8401191 / 8388608"
proof -
  have n: "(0::nat) < 3 * particleCount" by (simp add: particleCount_def)
  have a: "fround (lerp 1 0 lerpSpeed) = 4068475 / 4194304"
    using stored_needle_formed by (simp only: stored_blend_def)
  have b: "fround (lerp 1 (1 + 1 / 20) lerpSpeed) = 8401191 / 8388608"
    using stored_needle_chaos by (simp only: stored_blend_def)
  from noise_by_group [where nd = "sample_group particleCount 1 0 1" and j = 0 and t = "pi / 2"]
    sample_group_wf [of particleCount 1 0 1] n
  have "current (updateNeedles FORMED (pi / 2) (sample_group particleCount 1 0 1)) ! 0
      = fround (lerp 1 0 lerpSpeed) \<and>
    current (updateNeedles CHAOS (pi / 2) (sample_group particleCount 1 0 1)) ! 0
      = fround (lerp 1 (1 + 1 / 20) lerpSpeed)"
    by (simp add: sample_group_nth)
  with n show ?thesis
    by (simp only: a b sample_group_wf simp_thms)
qed

end
